theory Spec2Isabelle
  imports Complex_Main
begin

section \<open>Numeric model\<close>

text \<open>
  The program of \<^verbatim>\<open>SphereConvCube.cpp\<close> computes with \<^verbatim>\<open>float\<close> and
  \<^verbatim>\<open>double\<close>. Values of both types are modelled as \<^typ>\<open>real\<close> numbers.

  \<^item> The frame state (\<^verbatim>\<open>phase\<close>, \<^verbatim>\<open>ellapsedTime\<close>, \<^verbatim>\<open>halfSize\<close>) and the uniforms
    carry their rounding: every result stored in a \<^verbatim>\<open>float\<close> passes through a function
    \<open>f32\<close>, every \<^verbatim>\<open>double\<close> result through a function \<open>f64\<close>. The two functions are
    parameters of \<^verbatim>\<open>onAnimate\<close> and \<^verbatim>\<open>onDraw\<close>. \<open>binary32\<close> and \<open>binary64\<close> below
    are the roundings of the program (to nearest, ties to even); the identity is exact
    arithmetic. The theorems on the frame state hold for every pair of functions that
    satisfy \<open>rounding\<close>.
  \<^item> The arithmetic on the vertices of the mesh and on the samples of the texture is
    exact: there a statement is about the exact-arithmetic reading of the source.
\<close>

subsection \<open>Vec3f\<close>

datatype vec3 = Vec3f (vx: real) (vy: real) (vz: real)

text \<open>\<^verbatim>\<open>operator+=\<close> and \<^verbatim>\<open>operator*=\<close> (by a scalar) of the vector class, componentwise.\<close>

definition vadd :: "vec3 \<Rightarrow> vec3 \<Rightarrow> vec3" where
  "vadd a b = Vec3f (vx a + vx b) (vy a + vy b) (vz a + vz b)"

definition vscale :: "vec3 \<Rightarrow> real \<Rightarrow> vec3" where
  "vscale a k = Vec3f (vx a * k) (vy a * k) (vz a * k)"

definition mag :: "vec3 \<Rightarrow> real" where
  "mag a = sqrt (vx a * vx a + vy a * vy a + vz a * vz a)"

text \<open>
  Modelled from the spec: \<^verbatim>\<open>Vec3f::normalize(scale)\<close> is a member of the host
  framework's vector class and is not part of the source file. The specification reads
  the call as ``normalize the particle's current position direction, scale it by a small
  fixed increment distance'', and leaves the result for a zero-length vector open
  (``a degenerate direction''). The model therefore rescales a vector of nonzero length
  to length \<open>scale\<close> and takes the framework's answer for a zero-length vector as the
  parameter \<open>degenerate\<close>.
\<close>

definition normalize :: "vec3 \<Rightarrow> vec3 \<Rightarrow> real \<Rightarrow> vec3" where
  "normalize degenerate a scale =
     (if mag a = 0 then degenerate else vscale a (scale / mag a))"

subsection \<open>Colours and \<^verbatim>\<open>fmod\<close>\<close>

text \<open>
  A colour is written into the mesh as \<^verbatim>\<open>HSV(h, s, v)\<close>; the framework converts it to
  RGBA on assignment. The model keeps the triple the colour was constructed from.
\<close>

datatype color = HSV (hue: real) (saturation: real) (val: real)

text \<open>C's \<^verbatim>\<open>fmod\<close>: the remainder of the division truncated towards zero.\<close>

definition trunc :: "real \<Rightarrow> int" where
  "trunc r = (if 0 \<le> r then \<lfloor>r\<rfloor> else \<lceil>r\<rceil>)"

definition fmod :: "real \<Rightarrow> real \<Rightarrow> real" where
  "fmod a b = a - b * of_int (trunc (a / b))"

subsection \<open>Rounding to \<^verbatim>\<open>float\<close> and \<^verbatim>\<open>double\<close>\<close>

text \<open>\<open>rne\<close> rounds to the nearest integer, a tie to the even one.\<close>

definition rne :: "real \<Rightarrow> int" where
  "rne r = (let n = \<lfloor>r\<rfloor>; d = r - of_int n
            in if d < 1 / 2 then n else if 1 / 2 < d then n + 1
               else if even n then n else n + 1)"

text \<open>
  A binary format with \<open>p\<close> significant bits and least normal exponent \<open>emin\<close>. A
  magnitude \<open>a\<close> with \<open>2 powi e \<le> a < 2 powi (e + 1)\<close> is rounded on the grid of spacing
  \<open>2 powi (e - (p - 1))\<close>; below \<open>2 powi emin\<close> the spacing stays that of the least binade
  (subnormal numbers). The sign is kept. Overflow to infinity is not part of the model:
  a magnitude above the largest finite value is rounded as if the exponent range had no
  upper end.
\<close>

definition expo :: "int \<Rightarrow> real \<Rightarrow> int" where
  "expo emin a = max emin \<lfloor>log 2 a\<rfloor>"

definition ulp :: "nat \<Rightarrow> int \<Rightarrow> real \<Rightarrow> real" where
  "ulp p emin a = 2 powi (expo emin a - (int p - 1))"

definition fmag :: "nat \<Rightarrow> int \<Rightarrow> real \<Rightarrow> real" where
  "fmag p emin a = of_int (rne (a / ulp p emin a)) * ulp p emin a"

definition fround :: "nat \<Rightarrow> int \<Rightarrow> real \<Rightarrow> real" where
  "fround p emin x = sgn x * fmag p emin \<bar>x\<bar>"

definition binary32 :: "real \<Rightarrow> real" where
  "binary32 = fround 24 (- 126)"

definition binary64 :: "real \<Rightarrow> real" where
  "binary64 = fround 53 (- 1022)"

text \<open>
  What the theorems on the frame state use of a rounding function: it is monotone, and
  exact on the natural numbers up to \<open>2\<^sup>2\<^sup>4\<close>. The lemmas \<open>rounding_binary32\<close> and
  \<open>rounding_binary64\<close> show that the two formats have both properties.
\<close>

definition rounding :: "(real \<Rightarrow> real) \<Rightarrow> bool" where
  "rounding f \<longleftrightarrow>
     (\<forall>x y. x \<le> y \<longrightarrow> f x \<le> f y) \<and> (\<forall>k::nat. k \<le> 2 ^ 24 \<longrightarrow> f (real k) = real k)"

section \<open>The application state\<close>

record mesh =
  vertices :: "vec3 list"
  colors :: "color list"

text \<open>
  The fields of \<^verbatim>\<open>AlloApp\<close>. Of the texture the model keeps the samples submitted to
  it, and of the mesh its two arrays; the shader program has no state of interest.
\<close>

record app =
  texture :: "int list"
  pointMesh :: mesh
  phase :: real
  ellapsedTime :: real
  halfSize :: real

text \<open>The macros \<^verbatim>\<open>N\<close> and \<^verbatim>\<open>CLOUD_WIDTH\<close>.\<close>

definition N :: nat where
  "N = 80000"

definition CLOUD_WIDTH :: real where
  "CLOUD_WIDTH = 80.0"

text \<open>The field initialisers of \<^verbatim>\<open>AlloApp\<close>, before \<^verbatim>\<open>onCreate\<close> has run.\<close>

definition app_init :: app where
  "app_init = \<lparr> texture = [], pointMesh = \<lparr> vertices = [], colors = [] \<rparr>,
                phase = 0, ellapsedTime = 0, halfSize = 0 \<rparr>"

section \<open>\<^verbatim>\<open>onCreate\<close>\<close>

subsection \<open>The alpha texture\<close>

text \<open>
  \<^verbatim>\<open>float x = float(i) / (Nx - 1) * 2 - 1\<close>: the coordinate of sample index \<open>i\<close> in a
  row of \<open>n\<close> samples.
\<close>

definition coord :: "nat \<Rightarrow> nat \<Rightarrow> real" where
  "coord n i = real i / real_of_int (int n - 1) * 2 - 1"

text \<open>
  The value stored at column \<open>i\<close> of row \<open>j\<close>. The assignment of the \<^verbatim>\<open>float\<close> to a
  \<^verbatim>\<open>short\<close> element truncates towards zero; the lemma \<open>alpha_value_range\<close> shows that
  the truncated value always fits a \<^verbatim>\<open>short\<close>, so the element is kept as an \<^typ>\<open>int\<close>.
  The coordinates, the exponential and the product are exact here; the program forms
  them in \<^verbatim>\<open>float\<close> with the C library's \<^verbatim>\<open>exp\<close>, whose rounding is not modelled. The
  lemma \<open>extreme_margins\<close> gives the distance of the exact products at the centre and
  at the corners from the next integer.
\<close>

definition alpha_value :: "nat \<Rightarrow> nat \<Rightarrow> nat \<Rightarrow> nat \<Rightarrow> int" where
  "alpha_value Nx Ny i j =
     (let y = coord Ny j;
          x = coord Nx i;
          m = exp (- 13 * (x * x + y * y));
          m = m * (2 ^ 15 - 1)
      in trunc m)"

text \<open>The inner loop over \<open>i\<close> and the outer loop over \<open>j\<close>, writing \<^verbatim>\<open>alpha[j * Nx + i]\<close>.\<close>

function alpha_inner :: "nat \<Rightarrow> nat \<Rightarrow> nat \<Rightarrow> nat \<Rightarrow> int list \<Rightarrow> int list" where
  "alpha_inner Nx Ny j i a =
     (if i < Nx then alpha_inner Nx Ny j (Suc i) (a[j * Nx + i := alpha_value Nx Ny i j]) else a)"
  by pat_completeness auto
termination
  by (relation "measure (\<lambda>(Nx, Ny, j, i, a). Nx - i)") auto

declare alpha_inner.simps [simp del]

function alpha_outer :: "nat \<Rightarrow> nat \<Rightarrow> nat \<Rightarrow> int list \<Rightarrow> int list" where
  "alpha_outer Nx Ny j a =
     (if j < Ny then alpha_outer Nx Ny (Suc j) (alpha_inner Nx Ny j 0 a) else a)"
  by pat_completeness auto
termination
  by (relation "measure (\<lambda>(Nx, Ny, j, a). Ny - j)") auto

declare alpha_outer.simps [simp del]

text \<open>\<^verbatim>\<open>alpha.resize(Nx * Ny)\<close> gives zeros; the loops fill them; the result is submitted.\<close>

definition build_alpha :: "nat \<Rightarrow> nat \<Rightarrow> int list" where
  "build_alpha Nx Ny = alpha_outer Nx Ny 0 (replicate (Nx * Ny) 0)"

subsection \<open>The point mesh\<close>

text \<open>
  \<^verbatim>\<open>rnd::uniform(6.2831853)\<close> belongs to the host framework. The model takes its
  successive results as a sequence \<open>rnd\<close>: iteration \<open>i\<close> draws \<open>rnd (2 * i)\<close> for
  \<^verbatim>\<open>horizontal\<close> and \<open>rnd (2 * i + 1)\<close> for \<^verbatim>\<open>vertical\<close>. Nothing is assumed about
  the values drawn.
\<close>

definition new_vertex :: "real \<Rightarrow> real \<Rightarrow> vec3" where
  "new_vertex horizontal vertical =
     (let r = 0.01
      in vscale (Vec3f (r * cos horizontal * sin vertical) (r * cos vertical)
                       (r * sin horizontal * sin vertical)) CLOUD_WIDTH)"

definition create_body :: "(nat \<Rightarrow> real) \<Rightarrow> nat \<Rightarrow> mesh \<Rightarrow> mesh" where
  "create_body rnd i m =
     (let horizontal = rnd (2 * i);
          vertical = rnd (2 * i + 1);
          m1 = m\<lparr> vertices := vertices m @ [new_vertex horizontal vertical] \<rparr>
      in m1\<lparr> colors := colors m1 @ [HSV 0.7 1.0 1.0] \<rparr>)"

function create_loop :: "(nat \<Rightarrow> real) \<Rightarrow> nat \<Rightarrow> nat \<Rightarrow> mesh \<Rightarrow> mesh" where
  "create_loop rnd n i m =
     (if i < n then create_loop rnd n (Suc i) (create_body rnd i m) else m)"
  by pat_completeness auto
termination
  by (relation "measure (\<lambda>(rnd, n, i, m). n - i)") auto

declare create_loop.simps [simp del]

definition onCreate :: "(nat \<Rightarrow> real) \<Rightarrow> app \<Rightarrow> app" where
  "onCreate rnd s =
     (let Nx = 256;
          Ny = 256;
          s1 = s\<lparr> texture := build_alpha Nx Ny \<rparr>
      in s1\<lparr> pointMesh := create_loop rnd N 0 (pointMesh s1) \<rparr>)"

section \<open>\<^verbatim>\<open>onAnimate\<close>\<close>

text \<open>The local \<^verbatim>\<open>float size = 10.0\<close> and \<^verbatim>\<open>float increment = 0.01\<close>.\<close>

definition size_val :: real where
  "size_val = 10.0"

definition increment :: real where
  "increment = 0.01"

text \<open>
  The body shared by the three axis tests: scale the vertex by \<open>0.000001\<close> and
  recolour it from the elapsed time \<open>t\<close>.
\<close>

definition collapse :: "real \<Rightarrow> nat \<Rightarrow> mesh \<Rightarrow> mesh" where
  "collapse t i m =
     m\<lparr> vertices := (vertices m)[i := vscale (vertices m ! i) 0.000001],
        colors := (colors m)[i := HSV (fmod (t * 0.05) 1.0) 1.0 1.0] \<rparr>"

text \<open>One iteration of the loop over the particles, at index \<open>i\<close>.\<close>

definition loop_body :: "vec3 \<Rightarrow> real \<Rightarrow> nat \<Rightarrow> mesh \<Rightarrow> mesh" where
  "loop_body degenerate t i m0 =
     (let incVec = vertices m0 ! i;
          incVec = normalize degenerate incVec increment;
          m1 = m0\<lparr> vertices := (vertices m0)[i := vadd (vertices m0 ! i) incVec] \<rparr>;
          m2 = (if vx (vertices m1 ! i) > size_val \<or> vx (vertices m1 ! i) < - size_val
                then collapse t i m1 else m1);
          m3 = (if vy (vertices m2 ! i) > size_val \<or> vy (vertices m2 ! i) < - size_val
                then collapse t i m2 else m2);
          m4 = (if vz (vertices m3 ! i) > size_val \<or> vz (vertices m3 ! i) < - size_val
                then collapse t i m3 else m3)
      in m4)"

text \<open>\<^verbatim>\<open>for (int i = 0; i < N; i++)\<close>, from index \<open>i\<close> up to the bound \<open>n\<close>.\<close>

function particle_loop :: "vec3 \<Rightarrow> real \<Rightarrow> nat \<Rightarrow> nat \<Rightarrow> mesh \<Rightarrow> mesh" where
  "particle_loop degenerate t n i m =
     (if i < n then particle_loop degenerate t n (Suc i) (loop_body degenerate t i m) else m)"
  by pat_completeness auto
termination
  by (relation "measure (\<lambda>(degenerate, t, n, i, m). n - i)") auto

declare particle_loop.simps [simp del]

text \<open>
  \<^verbatim>\<open>onAnimate\<close>. The field \<^verbatim>\<open>phase\<close> is a \<^verbatim>\<open>float\<close> and \<open>dt\<close> a \<^verbatim>\<open>double\<close>: the sum
  \<^verbatim>\<open>phase += dt\<close> is formed in \<^verbatim>\<open>double\<close> and stored as a \<^verbatim>\<open>float\<close>, and the stored value
  is the one compared with \<open>3\<close>. \<^verbatim>\<open>phase -= 3\<close> is a \<^verbatim>\<open>float\<close> subtraction. In
  \<^verbatim>\<open>0.2 * phase / 3\<close> the literal is a \<^verbatim>\<open>double\<close>, so the product and the quotient are
  \<^verbatim>\<open>double\<close> operations and the result is stored as a \<^verbatim>\<open>float\<close>. \<^verbatim>\<open>1.0f\<close> is exact.
\<close>

definition onAnimate ::
  "(real \<Rightarrow> real) \<Rightarrow> (real \<Rightarrow> real) \<Rightarrow> vec3 \<Rightarrow> real \<Rightarrow> app \<Rightarrow> app" where
  "onAnimate f32 f64 degenerate dt s =
     (let s1 = s\<lparr> phase := f32 (f64 (phase s + dt)) \<rparr>;
          s2 = s1\<lparr> ellapsedTime := f64 (ellapsedTime s1 + dt) \<rparr>;
          s3 = (if phase s2 > 3 then s2\<lparr> phase := f32 (phase s2 - 3) \<rparr> else s2);
          s4 = s3\<lparr> halfSize := f32 (f64 (f64 (f64 0.2 * phase s3) / 3)) \<rparr>;
          s5 = s4\<lparr> phase := 1.0 \<rparr>
      in s5\<lparr> pointMesh := particle_loop degenerate (ellapsedTime s5) N 0 (pointMesh s5) \<rparr>)"

text \<open>
  Two intermediate values of \<^verbatim>\<open>onAnimate\<close>, named for the statements below: the stored
  phase after \<^verbatim>\<open>phase += dt\<close>, and the phase after the conditional subtraction, from
  which \<^verbatim>\<open>halfSize\<close> is derived.
\<close>

definition accumulatedPhase :: "(real \<Rightarrow> real) \<Rightarrow> (real \<Rightarrow> real) \<Rightarrow> real \<Rightarrow> real \<Rightarrow> real" where
  "accumulatedPhase f32 f64 ph dt = f32 (f64 (ph + dt))"

definition wrappedPhase :: "(real \<Rightarrow> real) \<Rightarrow> (real \<Rightarrow> real) \<Rightarrow> real \<Rightarrow> real \<Rightarrow> real" where
  "wrappedPhase f32 f64 ph dt =
     (let p = accumulatedPhase f32 f64 ph dt in if p > 3 then f32 (p - 3) else p)"

section \<open>\<^verbatim>\<open>onDraw\<close>\<close>

text \<open>
  What the draw hook leaves in the graphics context: the render state it sets, the
  uniforms it hands to the shader program by name, and the meshes it draws. Clearing
  the frame and binding the texture and the shader are calls into the framework with no
  effect on these fields and are left out. The cast \<^verbatim>\<open>float(ellapsedTime)\<close> rounds the
  \<^verbatim>\<open>double\<close> to a \<^verbatim>\<open>float\<close>; \<^verbatim>\<open>halfSize\<close> is a \<^verbatim>\<open>float\<close> already.
\<close>

record graphics =
  depthTesting :: bool
  blending :: bool
  blendModeAdd :: bool
  uniform :: "string \<rightharpoonup> real"
  drawn :: "mesh list"

definition onDraw :: "(real \<Rightarrow> real) \<Rightarrow> app \<Rightarrow> graphics \<Rightarrow> graphics" where
  "onDraw f32 s g =
     (let g1 = g\<lparr> depthTesting := False \<rparr>;
          g2 = g1\<lparr> blending := True \<rparr>;
          g3 = g2\<lparr> blendModeAdd := True \<rparr>;
          g4 = g3\<lparr> uniform := (uniform g3)(''halfSize'' \<mapsto> halfSize s) \<rparr>;
          g5 = g4\<lparr> uniform := (uniform g4)(''phase'' \<mapsto> f32 (ellapsedTime s)) \<rparr>
      in g5\<lparr> drawn := drawn g5 @ [pointMesh s] \<rparr>)"

text \<open>A graphics context for examples, with no uniform set and nothing drawn.\<close>

definition g_init :: graphics where
  "g_init = \<lparr> depthTesting = True, blending = False, blendModeAdd = False,
              uniform = Map.empty, drawn = [] \<rparr>"

section \<open>The geometry shader\<close>

datatype vec2 = Vec2 real real

datatype vec4 = Vec4 real real real real

text \<open>A \<^verbatim>\<open>mat4\<close> by its four rows; \<open>mat_mul\<close> is the product \<^verbatim>\<open>m * v\<close> with a column vector.\<close>

datatype mat4 = Mat4 vec4 vec4 vec4 vec4

fun dot4 :: "vec4 \<Rightarrow> vec4 \<Rightarrow> real" where
  "dot4 (Vec4 a b c d) (Vec4 x y z w) = a * x + b * y + c * z + d * w"

fun mat_mul :: "mat4 \<Rightarrow> vec4 \<Rightarrow> vec4" where
  "mat_mul (Mat4 r0 r1 r2 r3) v = Vec4 (dot4 r0 v) (dot4 r1 v) (dot4 r2 v) (dot4 r3 v)"

fun vadd4 :: "vec4 \<Rightarrow> vec4 \<Rightarrow> vec4" where
  "vadd4 (Vec4 a b c d) (Vec4 x y z w) = Vec4 (a + x) (b + y) (c + z) (d + w)"

text \<open>
  The output block \<^verbatim>\<open>Fragment\<close>, and what \<^verbatim>\<open>EmitVertex\<close> records: the current
  \<^verbatim>\<open>gl_Position\<close> together with the current contents of the output block.
\<close>

record fragment =
  color :: vec4
  textureCoordinate :: vec2

record emitted =
  position :: vec4
  out_fragment :: fragment

text \<open>
  The state of one invocation: the output variables, the vertices emitted into the
  strip that is still open, and the strips closed by \<^verbatim>\<open>EndPrimitive\<close>. The output
  layout is \<^verbatim>\<open>triangle_strip\<close>, so each closed primitive is one triangle strip.
\<close>

record gs_state =
  gl_Position :: vec4
  fragment_out :: fragment
  strip :: "emitted list"
  primitives :: "emitted list list"

definition gs_start :: gs_state where
  "gs_start = \<lparr> gl_Position = Vec4 0 0 0 0,
                fragment_out = \<lparr> color = Vec4 0 0 0 0, textureCoordinate = Vec2 0 0 \<rparr>,
                strip = [], primitives = [] \<rparr>"

definition EmitVertex :: "gs_state \<Rightarrow> gs_state" where
  "EmitVertex st =
     st\<lparr> strip := strip st @ [\<lparr> position = gl_Position st, out_fragment = fragment_out st \<rparr>] \<rparr>"

definition EndPrimitive :: "gs_state \<Rightarrow> gs_state" where
  "EndPrimitive st = st\<lparr> primitives := primitives st @ [strip st], strip := [] \<rparr>"

text \<open>
  One corner of \<^verbatim>\<open>main\<close>: set \<^verbatim>\<open>gl_Position\<close>, the texture coordinate and the colour,
  then emit.
\<close>

definition corner :: "mat4 \<Rightarrow> vec4 \<Rightarrow> vec4 \<Rightarrow> vec4 \<Rightarrow> vec2 \<Rightarrow> gs_state \<Rightarrow> gs_state" where
  "corner m v offset vertex_color tc st =
     (let st1 = st\<lparr> gl_Position := mat_mul m (vadd4 v offset) \<rparr>;
          st2 = st1\<lparr> fragment_out := (fragment_out st1)\<lparr> textureCoordinate := tc \<rparr> \<rparr>;
          st3 = st2\<lparr> fragment_out := (fragment_out st2)\<lparr> color := vertex_color \<rparr> \<rparr>
      in EmitVertex st3)"

text \<open>
  \<^verbatim>\<open>main\<close> of the geometry shader, for the uniforms \<^verbatim>\<open>al_ProjectionMatrix\<close> and
  \<^verbatim>\<open>halfSize\<close>, the input position \<^verbatim>\<open>gl_in[0].gl_Position\<close> and the input colour
  \<^verbatim>\<open>vertex[0].color\<close>.
\<close>

definition geometry_main :: "mat4 \<Rightarrow> real \<Rightarrow> vec4 \<Rightarrow> vec4 \<Rightarrow> gs_state \<Rightarrow> gs_state" where
  "geometry_main al_ProjectionMatrix halfSize_u gl_in_Position vertex_color st =
     (let m = al_ProjectionMatrix;
          v = gl_in_Position;
          st1 = corner m v (Vec4 (- halfSize_u) (- halfSize_u) 0.0 0.0) vertex_color (Vec2 0.0 0.0) st;
          st2 = corner m v (Vec4 halfSize_u (- halfSize_u) 0.0 0.0) vertex_color (Vec2 1.0 0.0) st1;
          st3 = corner m v (Vec4 (- halfSize_u) halfSize_u 0.0 0.0) vertex_color (Vec2 0.0 1.0) st2;
          st4 = corner m v (Vec4 halfSize_u halfSize_u 0.0 0.0) vertex_color (Vec2 1.0 1.0) st3
      in EndPrimitive st4)"

section \<open>The effect of one loop iteration on one particle\<close>

text \<open>
  The loop body reads and writes only index \<open>i\<close> of the two arrays. \<open>axis_check\<close> is one
  of its three tests on a vertex and its colour, and \<open>particle_step\<close> is the whole body
  seen from the particle: the drift, then the tests on \<open>x\<close>, \<open>y\<close> and \<open>z\<close> in that order.
  The lemma \<open>loop_body_particle_step\<close> relates them to \<open>loop_body\<close>.
\<close>

definition axis_check :: "real \<Rightarrow> (vec3 \<Rightarrow> real) \<Rightarrow> vec3 \<times> color \<Rightarrow> vec3 \<times> color" where
  "axis_check t axis p =
     (if axis (fst p) > size_val \<or> axis (fst p) < - size_val
      then (vscale (fst p) 0.000001, HSV (fmod (t * 0.05) 1.0) 1.0 1.0) else p)"

definition drift :: "vec3 \<Rightarrow> vec3 \<Rightarrow> vec3" where
  "drift degenerate v = vadd v (normalize degenerate v increment)"

definition particle_step :: "vec3 \<Rightarrow> real \<Rightarrow> vec3 \<times> color \<Rightarrow> vec3 \<times> color" where
  "particle_step degenerate t p =
     axis_check t vz (axis_check t vy (axis_check t vx (drift degenerate (fst p), snd p)))"

text \<open>\<open>in_cube b v\<close>: every component of \<open>v\<close> has absolute value at most \<open>b\<close>.\<close>

definition in_cube :: "real \<Rightarrow> vec3 \<Rightarrow> bool" where
  "in_cube b v \<longleftrightarrow> \<bar>vx v\<bar> \<le> b \<and> \<bar>vy v\<bar> \<le> b \<and> \<bar>vz v\<bar> \<le> b"

text \<open>The mesh holds \<^verbatim>\<open>N\<close> vertices and \<^verbatim>\<open>N\<close> colours, as it does once \<^verbatim>\<open>onCreate\<close> has run.\<close>

definition well_formed :: "app \<Rightarrow> bool" where
  "well_formed s \<longleftrightarrow>
     length (vertices (pointMesh s)) = N \<and> length (colors (pointMesh s)) = N"

text \<open>A state for examples: all \<^verbatim>\<open>N\<close> particles at \<open>v\<close>, with the initial colour.\<close>

definition cloud :: "vec3 \<Rightarrow> app" where
  "cloud v = app_init\<lparr> pointMesh :=
               \<lparr> vertices = replicate N v, colors = replicate N (HSV 0.7 1.0 1.0) \<rparr> \<rparr>"

text \<open>
  The states the application passes through: \<^verbatim>\<open>onCreate\<close> runs once on the freshly
  constructed object, then \<^verbatim>\<open>onAnimate\<close> runs once per frame with that frame's delta.
\<close>

inductive reachable :: "(real \<Rightarrow> real) \<Rightarrow> (real \<Rightarrow> real) \<Rightarrow> vec3 \<Rightarrow> app \<Rightarrow> bool"
  for f32 :: "real \<Rightarrow> real" and f64 :: "real \<Rightarrow> real" and degenerate :: vec3 where
  created: "reachable f32 f64 degenerate (onCreate rnd app_init)"
| animated: "reachable f32 f64 degenerate s \<Longrightarrow>
             reachable f32 f64 degenerate (onAnimate f32 f64 degenerate dt s)"

section \<open>The two rounding functions\<close>

lemma rne_of_int: "rne (of_int k) = k"
  by (simp add: rne_def)

lemma rne_bounds: "\<lfloor>r\<rfloor> \<le> rne r \<and> rne r \<le> \<lfloor>r\<rfloor> + 1"
  by (simp add: rne_def Let_def)

lemma rne_mono:
  assumes "x \<le> y"
  shows "rne x \<le> rne y"
proof (cases "\<lfloor>x\<rfloor> = \<lfloor>y\<rfloor>")
  case True
  have "x - of_int \<lfloor>y\<rfloor> \<le> y - of_int \<lfloor>y\<rfloor>" using assms by simp
  then show ?thesis
    using True by (simp add: rne_def Let_def)
next
  case False
  have "\<lfloor>x\<rfloor> \<le> \<lfloor>y\<rfloor>" using assms by (rule floor_mono)
  then have "\<lfloor>x\<rfloor> + 1 \<le> \<lfloor>y\<rfloor>" using False by simp
  then show ?thesis
    using rne_bounds [of x] rne_bounds [of y] by linarith
qed

lemma powr_powi: "(2 :: real) powr real_of_int k = 2 powi k"
  by (simp add: powr_real_of_int power_int_def inverse_eq_divide power_divide)

lemma floor_log_bounds:
  assumes "0 < a"
  shows "2 powi \<lfloor>log 2 a\<rfloor> \<le> a" and "a < 2 powi (\<lfloor>log 2 a\<rfloor> + 1)"
proof -
  have "2 powr real_of_int \<lfloor>log 2 a\<rfloor> \<le> a \<and> a < 2 powr (real_of_int \<lfloor>log 2 a\<rfloor> + 1)"
    using floor_log_eq_powr_iff [of a 2 "\<lfloor>log 2 a\<rfloor>"] assms by simp
  moreover have "real_of_int \<lfloor>log 2 a\<rfloor> + 1 = real_of_int (\<lfloor>log 2 a\<rfloor> + 1)" by simp
  ultimately show "2 powi \<lfloor>log 2 a\<rfloor> \<le> a" and "a < 2 powi (\<lfloor>log 2 a\<rfloor> + 1)"
    by (simp_all only: powr_powi)
qed

lemma floor_log_unique:
  assumes "2 powi e \<le> a" "a < 2 powi (e + 1)"
  shows "\<lfloor>log 2 a\<rfloor> = e"
proof -
  have pos: "0 < a"
    using assms(1) zero_less_power_int [of "2 :: real" e] by linarith
  have "real_of_int e + 1 = real_of_int (e + 1)" by simp
  then have "2 powr real_of_int e \<le> a \<and> a < 2 powr (real_of_int e + 1)"
    using assms by (simp only: powr_powi)
  then show ?thesis
    using floor_log_eq_powr_iff [of a 2 e] pos by simp
qed

lemma expo_mono:
  assumes "0 < a" "a \<le> b"
  shows "expo emin a \<le> expo emin b"
proof -
  have "log 2 a \<le> log 2 b" using assms by simp
  then have "\<lfloor>log 2 a\<rfloor> \<le> \<lfloor>log 2 b\<rfloor>" by (rule floor_mono)
  then show ?thesis by (simp add: expo_def)
qed

lemma less_next_binade:
  assumes "0 < a"
  shows "a < 2 powi (expo emin a + 1)"
proof -
  have "\<lfloor>log 2 a\<rfloor> + 1 \<le> expo emin a + 1" by (simp add: expo_def)
  then have "(2 :: real) powi (\<lfloor>log 2 a\<rfloor> + 1) \<le> 2 powi (expo emin a + 1)"
    by (intro power_int_increasing) simp_all
  then show ?thesis using floor_log_bounds(2) [OF assms] by linarith
qed

lemma ge_binade:
  assumes "0 < a" "emin < expo emin a"
  shows "2 powi (expo emin a) \<le> a"
proof -
  have "expo emin a = \<lfloor>log 2 a\<rfloor>" using assms(2) by (simp add: expo_def max_def split: if_splits)
  then show ?thesis using floor_log_bounds(1) [OF assms(1)] by simp
qed

lemma ulp_pos: "0 < ulp p emin a"
  by (simp add: ulp_def)

lemma binade_over_ulp:
  assumes "0 < p"
  shows "2 powi (expo emin a + 1) / ulp p emin a = of_int (2 ^ p)"
proof -
  have "(2 :: real) powi ((expo emin a - (int p - 1)) + int p) =
        2 powi (expo emin a - (int p - 1)) * 2 powi (int p)"
    by (rule power_int_add) simp
  moreover have "(expo emin a - (int p - 1)) + int p = expo emin a + 1" by simp
  ultimately have "(2 :: real) powi (expo emin a + 1) = 2 powi (expo emin a - (int p - 1)) * 2 ^ p"
    by simp
  then show ?thesis by (simp add: ulp_def)
qed

lemma binade_over_ulp':
  assumes "0 < p"
  shows "2 powi (expo emin a) / ulp p emin a = of_int (2 ^ (p - 1))"
proof -
  obtain q where q: "p = Suc q" using assms by (cases p) auto
  have "(2 :: real) powi ((expo emin a - int q) + int q) =
        2 powi (expo emin a - int q) * 2 powi (int q)"
    by (rule power_int_add) simp
  then have "(2 :: real) powi (expo emin a) = 2 powi (expo emin a - int q) * 2 ^ q"
    by simp
  then show ?thesis by (simp add: ulp_def q)
qed

lemma fmag_upper:
  assumes "0 < a" "0 < p"
  shows "fmag p emin a \<le> 2 powi (expo emin a + 1)"
proof -
  have "a / ulp p emin a \<le> 2 powi (expo emin a + 1) / ulp p emin a"
    using less_next_binade [OF assms(1), of emin] ulp_pos [of p emin a]
    by (simp add: divide_right_mono)
  then have "rne (a / ulp p emin a) \<le> rne (of_int (2 ^ p))"
    unfolding binade_over_ulp [OF assms(2)] by (rule rne_mono)
  then have "real_of_int (rne (a / ulp p emin a)) \<le> of_int (2 ^ p)"
    unfolding rne_of_int by (simp only: of_int_le_iff)
  then have "fmag p emin a \<le> of_int (2 ^ p) * ulp p emin a"
    unfolding fmag_def using ulp_pos [of p emin a] by (simp add: mult_right_mono)
  also have "\<dots> = 2 powi (expo emin a + 1)"
    using binade_over_ulp [OF assms(2), of emin a, symmetric] ulp_pos [of p emin a] by simp
  finally show ?thesis .
qed

lemma fmag_lower:
  assumes "0 < a" "0 < p" "emin < expo emin a"
  shows "2 powi (expo emin a) \<le> fmag p emin a"
proof -
  have "2 powi (expo emin a) / ulp p emin a \<le> a / ulp p emin a"
    using ge_binade [OF assms(1,3)] ulp_pos [of p emin a]
    by (simp add: divide_right_mono)
  then have "rne (of_int (2 ^ (p - 1))) \<le> rne (a / ulp p emin a)"
    unfolding binade_over_ulp' [OF assms(2)] by (rule rne_mono)
  then have "real_of_int (2 ^ (p - 1)) \<le> of_int (rne (a / ulp p emin a))"
    unfolding rne_of_int by (simp only: of_int_le_iff)
  then have "of_int (2 ^ (p - 1)) * ulp p emin a \<le> fmag p emin a"
    unfolding fmag_def using ulp_pos [of p emin a] by (simp add: mult_right_mono)
  moreover have "of_int (2 ^ (p - 1)) * ulp p emin a = 2 powi (expo emin a)"
    using binade_over_ulp' [OF assms(2), of emin a, symmetric] ulp_pos [of p emin a] by simp
  ultimately show ?thesis by simp
qed

lemma fmag_nonneg:
  assumes "0 \<le> a"
  shows "0 \<le> fmag p emin a"
proof -
  have "0 \<le> a / ulp p emin a" using assms ulp_pos [of p emin a] by simp
  then have "rne 0 \<le> rne (a / ulp p emin a)" by (rule rne_mono)
  then have "0 \<le> rne (a / ulp p emin a)" using rne_of_int [of 0] by simp
  then show ?thesis using ulp_pos [of p emin a] by (simp add: fmag_def)
qed

lemma fmag_mono:
  assumes "0 < a" "a \<le> b" "0 < p"
  shows "fmag p emin a \<le> fmag p emin b"
proof (cases "expo emin a = expo emin b")
  case True
  then have u: "ulp p emin a = ulp p emin b" by (simp add: ulp_def)
  have "a / ulp p emin b \<le> b / ulp p emin b"
    using assms(2) ulp_pos [of p emin b] by (simp add: divide_right_mono)
  then have "rne (a / ulp p emin b) \<le> rne (b / ulp p emin b)" by (rule rne_mono)
  then show ?thesis
    using ulp_pos [of p emin b] by (simp add: fmag_def u mult_right_mono)
next
  case False
  then have lt: "expo emin a < expo emin b"
    using expo_mono [OF assms(1,2), of emin] by simp
  have b: "0 < b" using assms by simp
  have "emin \<le> expo emin a" by (simp add: expo_def)
  then have "emin < expo emin b" using lt by simp
  then have "2 powi (expo emin b) \<le> fmag p emin b"
    using fmag_lower [OF b assms(3)] by simp
  moreover have "fmag p emin a \<le> 2 powi (expo emin a + 1)"
    using fmag_upper [OF assms(1,3)] .
  moreover have "(2 :: real) powi (expo emin a + 1) \<le> 2 powi (expo emin b)"
    using lt by (intro power_int_increasing) simp_all
  ultimately show ?thesis by linarith
qed

lemma fround_mono:
  assumes "x \<le> y" "0 < p"
  shows "fround p emin x \<le> fround p emin y"
proof -
  consider "x \<le> 0" "0 \<le> y" | "0 < x" | "y < 0" using assms(1) by linarith
  then show ?thesis
  proof cases
    case 1
    have "fround p emin x \<le> 0"
      using 1(1) fmag_nonneg [of "\<bar>x\<bar>" p emin]
      by (cases "x = 0") (simp_all add: fround_def sgn_if)
    moreover have "0 \<le> fround p emin y"
      using 1(2) fmag_nonneg [of "\<bar>y\<bar>" p emin]
      by (cases "y = 0") (simp_all add: fround_def sgn_if)
    ultimately show ?thesis by simp
  next
    case 2
    then show ?thesis
      using assms fmag_mono [of x y p emin] by (simp add: fround_def sgn_if)
  next
    case 3
    then have "0 < - y" "- y \<le> - x" using assms by simp_all
    then have "fmag p emin (- y) \<le> fmag p emin (- x)"
      using assms(2) by (intro fmag_mono)
    then show ?thesis using 3 assms by (simp add: fround_def sgn_if)
  qed
qed

text \<open>
  How a concrete value is rounded: name the binade of its magnitude, and the rest is
  arithmetic on numerals.
\<close>

lemma fround_eval:
  assumes "2 powi e \<le> \<bar>x\<bar>" "\<bar>x\<bar> < 2 powi (e + 1)" "emin \<le> e"
  shows "fround p emin x =
           sgn x * (of_int (rne (\<bar>x\<bar> / 2 powi (e - (int p - 1)))) * 2 powi (e - (int p - 1)))"
proof -
  have "expo emin \<bar>x\<bar> = e"
    using floor_log_unique [OF assms(1,2)] assms(3) by (simp add: expo_def)
  then show ?thesis by (simp add: fround_def fmag_def ulp_def)
qed

lemma fmag_exact:
  assumes "a / ulp p emin a = of_int m"
  shows "fmag p emin a = a"
proof -
  have "fmag p emin a = of_int m * ulp p emin a"
    by (simp add: fmag_def assms rne_of_int)
  also have "\<dots> = a"
    using assms ulp_pos [of p emin a] by (simp add: field_simps)
  finally show ?thesis .
qed

lemma fround_nat:
  assumes "k \<le> 2 ^ p" "0 < p" "emin \<le> 0"
  shows "fround p emin (real k) = real k"
proof (cases "k = 0")
  case True
  then show ?thesis by (simp add: fround_def)
next
  case False
  define a where "a = real k"
  define e where "e = \<lfloor>log 2 a\<rfloor>"
  have a1: "1 \<le> a" using False by (simp add: a_def)
  then have pos: "0 < a" by simp
  have lo: "2 powi e \<le> a" and hi: "a < 2 powi (e + 1)"
    unfolding e_def using floor_log_bounds [OF pos] by simp_all
  have "(2 :: real) powi 0 \<le> a" using a1 by simp
  have e0: "0 \<le> e"
  proof (rule ccontr)
    assume "\<not> 0 \<le> e"
    then have "e + 1 \<le> 0" by simp
    then have "(2 :: real) powi (e + 1) \<le> 2 powi 0"
      by (intro power_int_increasing) simp_all
    then show False using hi a1 by simp
  qed
  have ap: "a \<le> 2 ^ p"
  proof -
    have "real k \<le> real (2 ^ p)" using assms(1) by (simp only: of_nat_le_iff)
    then show ?thesis by (simp add: a_def)
  qed
  have ep: "e \<le> int p"
  proof (rule ccontr)
    assume "\<not> e \<le> int p"
    then have "int p + 1 \<le> e" by simp
    then have "(2 :: real) powi (int p + 1) \<le> 2 powi e"
      by (intro power_int_increasing) simp_all
    moreover have "(2 :: real) powi (int p + 1) = 2 * 2 ^ p"
      using power_int_add [of "2 :: real" "int p" 1] by simp
    moreover have "(0 :: real) < 2 ^ p" by simp
    ultimately show False using lo ap by linarith
  qed
  have ex: "expo emin a = e"
    using e0 assms(3) unfolding expo_def e_def [symmetric] by linarith
  have u: "ulp p emin a = 2 powi (e - (int p - 1))"
    by (simp add: ulp_def ex)
  have "\<exists>m. a / ulp p emin a = of_int m"
  proof (cases "e \<le> int p - 1")
    case True
    define d where "d = nat (int p - 1 - e)"
    have "(2 :: real) powi ((e - (int p - 1)) + int d) = 2 powi (e - (int p - 1)) * 2 powi (int d)"
      by (rule power_int_add) simp
    moreover have "(e - (int p - 1)) + int d = 0" using True by (simp add: d_def)
    ultimately have "ulp p emin a * 2 ^ d = 1" by (simp add: u)
    then have "a / ulp p emin a = a * 2 ^ d"
      using ulp_pos [of p emin a] by (simp add: field_simps)
    also have "\<dots> = of_int (int k * 2 ^ d)" by (simp add: a_def)
    finally show ?thesis by blast
  next
    case False
    then have "e = int p" using ep by simp
    then have "a = 2 ^ p" using lo ap by simp
    obtain q where q: "p = Suc q" using assms(2) by (cases p) auto
    have "ulp p emin a = 2" using \<open>e = int p\<close> by (simp add: u)
    then have "a / ulp p emin a = of_int (2 ^ q)"
      using \<open>a = 2 ^ p\<close> by (simp add: q)
    then show ?thesis by blast
  qed
  then obtain m where "a / ulp p emin a = of_int m" by blast
  then have "fmag p emin a = a" by (rule fmag_exact)
  then show ?thesis using pos by (simp add: fround_def a_def)
qed

lemma rounding_fround:
  assumes "24 \<le> p" "emin \<le> 0"
  shows "rounding (fround p emin)"
  unfolding rounding_def
proof (intro conjI allI impI)
  fix x y :: real assume "x \<le> y"
  then show "fround p emin x \<le> fround p emin y"
    using assms(1) by (intro fround_mono) simp_all
next
  fix k :: nat assume "k \<le> 2 ^ 24"
  moreover have "(2 :: nat) ^ 24 \<le> 2 ^ p"
    using assms(1) by (intro power_increasing) simp_all
  ultimately have "k \<le> 2 ^ p" by (rule order_trans)
  then show "fround p emin (real k) = real k"
    using assms by (intro fround_nat) simp_all
qed

lemma rounding_binary32: "rounding binary32"
  unfolding binary32_def by (rule rounding_fround) simp_all

lemma rounding_binary64: "rounding binary64"
  unfolding binary64_def by (rule rounding_fround) simp_all

lemma rounding_exact: "rounding (\<lambda>x. x)"
  by (simp add: rounding_def)

lemma binary32_nat: "k \<le> 16777216 \<Longrightarrow> binary32 (real k) = real k"
  using rounding_binary32 by (simp add: rounding_def)

lemma binary64_nat: "k \<le> 16777216 \<Longrightarrow> binary64 (real k) = real k"
  using rounding_binary64 by (simp add: rounding_def)

lemma rounding_mono: "rounding f \<Longrightarrow> x \<le> y \<Longrightarrow> f x \<le> f y"
  by (simp add: rounding_def)

lemma rounding_nat: "rounding f \<Longrightarrow> k \<le> 16777216 \<Longrightarrow> f (real k) = real k"
  by (simp add: rounding_def)

lemma rounding_0: "rounding f \<Longrightarrow> f 0 = 0"
  using rounding_nat [of f 0] by simp

lemma rounding_3: "rounding f \<Longrightarrow> f 3 = 3"
  using rounding_nat [of f 3] by simp

section \<open>The frame state\<close>

lemma onAnimate_phase: "phase (onAnimate f32 f64 degenerate dt s) = 1"
  by (simp add: onAnimate_def Let_def)

lemma onAnimate_ellapsedTime:
  "ellapsedTime (onAnimate f32 f64 degenerate dt s) = f64 (ellapsedTime s + dt)"
  by (simp add: onAnimate_def Let_def)

lemma onAnimate_halfSize:
  "halfSize (onAnimate f32 f64 degenerate dt s) =
     f32 (f64 (f64 (f64 0.2 * wrappedPhase f32 f64 (phase s) dt) / 3))"
  by (simp add: onAnimate_def wrappedPhase_def accumulatedPhase_def Let_def)

section \<open>The particle loop\<close>

lemma loop_body_particle_step:
  assumes "i < length (vertices m)" "i < length (colors m)"
  shows "loop_body degenerate t i m =
           m\<lparr> vertices := (vertices m)[i := fst (particle_step degenerate t (vertices m ! i, colors m ! i))],
              colors := (colors m)[i := snd (particle_step degenerate t (vertices m ! i, colors m ! i))] \<rparr>"
  using assms
  by (simp add: loop_body_def particle_step_def axis_check_def drift_def collapse_def Let_def)

lemma loop_body_length:
  "length (vertices (loop_body degenerate t i m)) = length (vertices m) \<and>
   length (colors (loop_body degenerate t i m)) = length (colors m)"
  by (simp add: loop_body_def collapse_def Let_def)

lemma particle_loop_nth:
  assumes "n \<le> length (vertices m)" "n \<le> length (colors m)" "k < n"
  shows "vertices (particle_loop degenerate t n i m) ! k =
           (if i \<le> k then fst (particle_step degenerate t (vertices m ! k, colors m ! k)) else vertices m ! k) \<and>
         colors (particle_loop degenerate t n i m) ! k =
           (if i \<le> k then snd (particle_step degenerate t (vertices m ! k, colors m ! k)) else colors m ! k) \<and>
         length (vertices (particle_loop degenerate t n i m)) = length (vertices m) \<and>
         length (colors (particle_loop degenerate t n i m)) = length (colors m)"
  using assms
proof (induction degenerate t n i m rule: particle_loop.induct)
  case (1 degenerate t n i m)
  show ?case
  proof (cases "i < n")
    case True
    have len: "n \<le> length (vertices (loop_body degenerate t i m))"
              "n \<le> length (colors (loop_body degenerate t i m))"
      using "1.prems" by (simp_all add: loop_body_length)
    have ih: "vertices (particle_loop degenerate t n (Suc i) (loop_body degenerate t i m)) ! k =
           (if Suc i \<le> k then fst (particle_step degenerate t (vertices (loop_body degenerate t i m) ! k, colors (loop_body degenerate t i m) ! k)) else vertices (loop_body degenerate t i m) ! k) \<and>
         colors (particle_loop degenerate t n (Suc i) (loop_body degenerate t i m)) ! k =
           (if Suc i \<le> k then snd (particle_step degenerate t (vertices (loop_body degenerate t i m) ! k, colors (loop_body degenerate t i m) ! k)) else colors (loop_body degenerate t i m) ! k) \<and>
         length (vertices (particle_loop degenerate t n (Suc i) (loop_body degenerate t i m))) = length (vertices (loop_body degenerate t i m)) \<and>
         length (colors (particle_loop degenerate t n (Suc i) (loop_body degenerate t i m))) = length (colors (loop_body degenerate t i m))"
      using "1.IH"[OF True len "1.prems"(3)] .
    have i1: "i < length (vertices m)" "i < length (colors m)"
      using True "1.prems" by simp_all
    have k1: "k < length (vertices m)" "k < length (colors m)"
      using "1.prems" by simp_all
    have unfold: "particle_loop degenerate t n i m =
                  particle_loop degenerate t n (Suc i) (loop_body degenerate t i m)"
      using True by (subst particle_loop.simps) simp
    have body_v: "vertices (loop_body degenerate t i m) ! k =
                  (if k = i then fst (particle_step degenerate t (vertices m ! k, colors m ! k))
                   else vertices m ! k)"
      using i1 k1 by (simp add: loop_body_particle_step nth_list_update)
    have body_c: "colors (loop_body degenerate t i m) ! k =
                  (if k = i then snd (particle_step degenerate t (vertices m ! k, colors m ! k))
                   else colors m ! k)"
      using i1 k1 by (simp add: loop_body_particle_step nth_list_update)
    consider "k < i" | "k = i" | "Suc i \<le> k" by linarith
    then show ?thesis
    proof cases
      case 1
      then show ?thesis using ih by (simp add: unfold body_v body_c loop_body_length)
    next
      case 2
      then show ?thesis using ih body_v body_c by (simp add: unfold loop_body_length)
    next
      case 3
      then show ?thesis using ih by (simp add: unfold body_v body_c loop_body_length)
    qed
  next
    case False
    then show ?thesis using "1.prems" by (simp add: particle_loop.simps)
  qed
qed

lemma mag_nonneg: "0 \<le> mag v"
  by (simp add: mag_def)

lemma mag_eq_0_iff: "mag v = 0 \<longleftrightarrow> v = Vec3f 0 0 0"
proof
  assume "mag v = 0"
  then have "vx v * vx v + vy v * vy v + vz v * vz v = 0"
    by (simp add: mag_def)
  moreover have "0 \<le> vx v * vx v" "0 \<le> vy v * vy v" "0 \<le> vz v * vz v"
    by simp_all
  ultimately have "vx v * vx v = 0 \<and> vy v * vy v = 0 \<and> vz v * vz v = 0"
    by (simp add: add_nonneg_eq_0_iff)
  then have "vx v = 0 \<and> vy v = 0 \<and> vz v = 0"
    by simp
  then show "v = Vec3f 0 0 0"
    by (cases v) simp
next
  assume "v = Vec3f 0 0 0"
  then show "mag v = 0" by (simp add: mag_def)
qed

lemma mag_vscale: "mag (vscale v k) = \<bar>k\<bar> * mag v"
proof -
  have "vx v * k * (vx v * k) + vy v * k * (vy v * k) + vz v * k * (vz v * k) =
        k\<^sup>2 * (vx v * vx v + vy v * vy v + vz v * vz v)"
    by (simp add: power2_eq_square algebra_simps)
  then show ?thesis
    by (simp add: mag_def vscale_def real_sqrt_mult)
qed

lemma vadd_vscale: "vadd v (vscale v k) = vscale v (1 + k)"
  by (simp add: vadd_def vscale_def algebra_simps)

lemma drift_nonzero:
  assumes "v \<noteq> Vec3f 0 0 0"
  shows "drift degenerate v = vscale v (1 + increment / mag v)"
  using assms by (simp add: drift_def normalize_def mag_eq_0_iff vadd_vscale)

lemma mag_drift:
  assumes "v \<noteq> Vec3f 0 0 0"
  shows "mag (drift degenerate v) = mag v + increment"
proof -
  have pos: "0 < mag v"
    using assms mag_nonneg [of v] mag_eq_0_iff [of v] by linarith
  then have "0 < 1 + increment / mag v"
    by (simp add: increment_def add_pos_pos)
  then have "mag (drift degenerate v) = (1 + increment / mag v) * mag v"
    using assms by (simp add: drift_nonzero mag_vscale)
  also have "\<dots> = mag v + increment"
    using pos by (simp add: field_simps)
  finally show ?thesis .
qed

lemma abs_component_le_mag:
  "\<bar>vx v\<bar> \<le> mag v" "\<bar>vy v\<bar> \<le> mag v" "\<bar>vz v\<bar> \<le> mag v"
proof -
  have "(vx v)\<^sup>2 \<le> vx v * vx v + vy v * vy v + vz v * vz v"
       "(vy v)\<^sup>2 \<le> vx v * vx v + vy v * vy v + vz v * vz v"
       "(vz v)\<^sup>2 \<le> vx v * vx v + vy v * vy v + vz v * vz v"
    by (simp_all add: power2_eq_square)
  then have "sqrt ((vx v)\<^sup>2) \<le> mag v" "sqrt ((vy v)\<^sup>2) \<le> mag v" "sqrt ((vz v)\<^sup>2) \<le> mag v"
    unfolding mag_def by (simp_all only: real_sqrt_le_iff)
  then show "\<bar>vx v\<bar> \<le> mag v" "\<bar>vy v\<bar> \<le> mag v" "\<bar>vz v\<bar> \<le> mag v"
    by simp_all
qed

lemma axis_check_pass:
  assumes "\<bar>axis v\<bar> \<le> size_val"
  shows "axis_check t axis (v, c) = (v, c)"
  using assms by (simp add: axis_check_def abs_le_iff not_less)

lemma axis_check_collapse:
  assumes "\<not> \<bar>axis v\<bar> \<le> size_val"
  shows "axis_check t axis (v, c) = (vscale v 0.000001, HSV (fmod (t * 0.05) 1.0) 1.0 1.0)"
proof -
  have "axis v > size_val \<or> axis v < - size_val"
    using assms by (simp add: abs_le_iff not_le) linarith
  then show ?thesis by (simp add: axis_check_def)
qed

lemma in_cube_collapsed:
  assumes "in_cube 10000000 v"
  shows "in_cube size_val (vscale v 0.000001)"
  using assms by (simp add: in_cube_def vscale_def size_val_def abs_mult)

lemma particle_step_no_collapse:
  assumes "in_cube size_val (drift degenerate v)"
  shows "particle_step degenerate t (v, c) = (drift degenerate v, c)"
  using assms by (simp add: particle_step_def in_cube_def axis_check_pass)

lemma particle_step_collapse:
  assumes "\<not> in_cube size_val (drift degenerate v)" "in_cube 10000000 (drift degenerate v)"
  shows "particle_step degenerate t (v, c) =
           (vscale (drift degenerate v) 0.000001, HSV (fmod (t * 0.05) 1.0) 1.0 1.0)"
proof -
  let ?p = "drift degenerate v"
  let ?q = "vscale ?p 0.000001"
  let ?h = "HSV (fmod (t * 0.05) 1.0) 1.0 1.0"
  have small: "\<bar>vx ?q\<bar> \<le> size_val" "\<bar>vy ?q\<bar> \<le> size_val" "\<bar>vz ?q\<bar> \<le> size_val"
    using in_cube_collapsed [OF assms(2)] by (simp_all add: in_cube_def)
  consider (x) "\<not> \<bar>vx ?p\<bar> \<le> size_val"
    | (y) "\<bar>vx ?p\<bar> \<le> size_val" "\<not> \<bar>vy ?p\<bar> \<le> size_val"
    | (z) "\<bar>vx ?p\<bar> \<le> size_val" "\<bar>vy ?p\<bar> \<le> size_val" "\<not> \<bar>vz ?p\<bar> \<le> size_val"
    using assms(1) by (auto simp: in_cube_def)
  then show ?thesis
  proof cases
    case x
    have "particle_step degenerate t (v, c) = axis_check t vz (axis_check t vy (?q, ?h))"
      using x by (simp add: particle_step_def axis_check_collapse)
    also have "\<dots> = (?q, ?h)"
      using small by (simp add: axis_check_pass)
    finally show ?thesis .
  next
    case y
    have "particle_step degenerate t (v, c) = axis_check t vz (?q, ?h)"
      using y by (simp add: particle_step_def axis_check_collapse axis_check_pass)
    also have "\<dots> = (?q, ?h)"
      using small by (simp add: axis_check_pass)
    finally show ?thesis .
  next
    case z
    then show ?thesis
      by (simp add: particle_step_def axis_check_collapse axis_check_pass)
  qed
qed

lemma onAnimate_particle:
  assumes "N \<le> length (vertices (pointMesh s))" "N \<le> length (colors (pointMesh s))" "k < N"
  shows "vertices (pointMesh (onAnimate f32 f64 degenerate dt s)) ! k =
           fst (particle_step degenerate (f64 (ellapsedTime s + dt))
                  (vertices (pointMesh s) ! k, colors (pointMesh s) ! k))"
    and "colors (pointMesh (onAnimate f32 f64 degenerate dt s)) ! k =
           snd (particle_step degenerate (f64 (ellapsedTime s + dt))
                  (vertices (pointMesh s) ! k, colors (pointMesh s) ! k))"
    and "length (vertices (pointMesh (onAnimate f32 f64 degenerate dt s))) = length (vertices (pointMesh s))"
    and "length (colors (pointMesh (onAnimate f32 f64 degenerate dt s))) = length (colors (pointMesh s))"
  using particle_loop_nth [OF assms, of degenerate "f64 (ellapsedTime s + dt)" 0]
  by (simp_all add: onAnimate_def Let_def)



section \<open>One step of the particles\<close>

lemma mag_x_axis: "0 \<le> a \<Longrightarrow> mag (Vec3f a 0 0) = a"
  by (simp add: mag_def)

lemma well_formed_cloud: "well_formed (cloud v)"
  by (simp add: well_formed_def cloud_def)

lemma cloud_nth:
  "k < N \<Longrightarrow> vertices (pointMesh (cloud v)) ! k = v"
  "k < N \<Longrightarrow> colors (pointMesh (cloud v)) ! k = HSV 0.7 1.0 1.0"
  by (simp_all add: cloud_def)

lemma N_pos: "0 < N"
  by (simp add: N_def)

lemma cloud_time: "ellapsedTime (cloud v) = 0" "phase (cloud v) = 0"
  by (simp_all add: cloud_def app_init_def)

lemma fst_axis_check:
  "fst (axis_check t axis p) =
     (if axis (fst p) > size_val \<or> axis (fst p) < - size_val then vscale (fst p) 0.000001 else fst p)"
  by (simp add: axis_check_def)

lemma fst_particle_step_time:
  "fst (particle_step degenerate t p) = fst (particle_step degenerate t' p)"
  by (simp add: particle_step_def fst_axis_check)

text \<open>
  Claim C2. In a step that collapses nothing for particle \<open>k\<close> (every component of its
  updated position is within the boundary), the distance from the origin does not
  decrease; for a particle that is not at the origin it increases strictly, by exactly
  \<open>0.01\<close>.
\<close>

theorem drift_increases_distance:
  assumes "well_formed s" and "k < N"
    and "in_cube size_val (drift degenerate (vertices (pointMesh s) ! k))"
  shows "mag (vertices (pointMesh s) ! k) \<le> mag (vertices (pointMesh (onAnimate f32 f64 degenerate dt s)) ! k) \<and>
         (vertices (pointMesh s) ! k \<noteq> Vec3f 0 0 0 \<longrightarrow>
            mag (vertices (pointMesh s) ! k) < mag (vertices (pointMesh (onAnimate f32 f64 degenerate dt s)) ! k) \<and>
            mag (vertices (pointMesh (onAnimate f32 f64 degenerate dt s)) ! k) =
              mag (vertices (pointMesh s) ! k) + 0.01)"
proof -
  let ?v = "vertices (pointMesh s) ! k"
  have len: "N \<le> length (vertices (pointMesh s))" "N \<le> length (colors (pointMesh s))"
    using assms(1) by (simp_all add: well_formed_def)
  have new: "vertices (pointMesh (onAnimate f32 f64 degenerate dt s)) ! k = drift degenerate ?v"
    using onAnimate_particle(1) [OF len assms(2), of f32 f64 degenerate dt]
          particle_step_no_collapse [OF assms(3)]
    by simp
  show ?thesis
  proof (cases "?v = Vec3f 0 0 0")
    case True
    then have "mag ?v = 0" by (simp add: mag_eq_0_iff)
    then show ?thesis using True mag_nonneg [of "drift degenerate ?v"] by (simp add: new)
  next
    case False
    then show ?thesis by (simp add: new mag_drift increment_def)
  qed
qed

theorem drift_increases_distance_witness:
  "in_cube size_val (drift (Vec3f 0 0 0) (Vec3f 1 0 0)) \<and>
   mag (vertices (pointMesh (onAnimate binary32 binary64 (Vec3f 0 0 0) 1 (cloud (Vec3f 1 0 0)))) ! 0) = 1.01"
proof -
  have d: "drift (Vec3f 0 0 0) (Vec3f 1 0 0) = Vec3f 1.01 0 0"
    by (simp add: drift_def normalize_def mag_x_axis vadd_def vscale_def increment_def)
  have h: "in_cube size_val (drift (Vec3f 0 0 0) (vertices (pointMesh (cloud (Vec3f 1 0 0))) ! 0))"
    by (simp add: cloud_nth N_pos d in_cube_def size_val_def)
  show ?thesis
    using drift_increases_distance [OF well_formed_cloud N_pos h, of binary32 binary64 1]
    by (simp add: cloud_nth N_pos d mag_x_axis in_cube_def size_val_def)
qed

text \<open>
  Claim C6. From one and the same state, two steps with different time deltas produce
  the same particle positions. (The witness below also shows a colour that does depend
  on the delta.)
\<close>

theorem positions_independent_of_dt:
  assumes "well_formed s"
  shows "vertices (pointMesh (onAnimate f32 f64 degenerate dt1 s)) =
         vertices (pointMesh (onAnimate f32 f64 degenerate dt2 s))"
proof (rule nth_equalityI)
  have len: "N \<le> length (vertices (pointMesh s))" "N \<le> length (colors (pointMesh s))"
    using assms by (simp_all add: well_formed_def)
  have l1: "length (vertices (pointMesh (onAnimate f32 f64 degenerate dt1 s))) = N"
    using onAnimate_particle(3) [OF len N_pos, of f32 f64 degenerate dt1] assms
    by (simp add: well_formed_def)
  have l2: "length (vertices (pointMesh (onAnimate f32 f64 degenerate dt2 s))) = N"
    using onAnimate_particle(3) [OF len N_pos, of f32 f64 degenerate dt2] assms
    by (simp add: well_formed_def)
  show "length (vertices (pointMesh (onAnimate f32 f64 degenerate dt1 s))) =
        length (vertices (pointMesh (onAnimate f32 f64 degenerate dt2 s)))"
    using l1 l2 by simp
  fix k
  assume "k < length (vertices (pointMesh (onAnimate f32 f64 degenerate dt1 s)))"
  then have k: "k < N" using l1 by simp
  show "vertices (pointMesh (onAnimate f32 f64 degenerate dt1 s)) ! k =
        vertices (pointMesh (onAnimate f32 f64 degenerate dt2 s)) ! k"
    using onAnimate_particle(1) [OF len k, of f32 f64 degenerate dt1]
          onAnimate_particle(1) [OF len k, of f32 f64 degenerate dt2]
          fst_particle_step_time [of degenerate "f64 (ellapsedTime s + dt1)" _ "f64 (ellapsedTime s + dt2)"]
    by simp
qed

theorem positions_independent_of_dt_witness:
  "vertices (pointMesh (onAnimate binary32 binary64 (Vec3f 0 0 0) 1 (cloud (Vec3f 10 0 0)))) =
   vertices (pointMesh (onAnimate binary32 binary64 (Vec3f 0 0 0) 7 (cloud (Vec3f 10 0 0)))) \<and>
   colors (pointMesh (onAnimate binary32 binary64 (Vec3f 0 0 0) 1 (cloud (Vec3f 10 0 0)))) ! 0 \<noteq>
   colors (pointMesh (onAnimate binary32 binary64 (Vec3f 0 0 0) 7 (cloud (Vec3f 10 0 0)))) ! 0"
proof -
  have len: "N \<le> length (vertices (pointMesh (cloud (Vec3f 10 0 0))))"
            "N \<le> length (colors (pointMesh (cloud (Vec3f 10 0 0))))"
    using well_formed_cloud [of "Vec3f 10 0 0"] by (simp_all add: well_formed_def)
  have d: "drift (Vec3f 0 0 0) (Vec3f 10 0 0) = Vec3f 10.01 0 0"
    by (simp add: drift_def normalize_def mag_x_axis vadd_def vscale_def increment_def)
  have c: "snd (particle_step (Vec3f 0 0 0) t (Vec3f 10 0 0, c0)) = HSV (fmod (t * 0.05) 1.0) 1.0 1.0" for t c0
    by (simp add: particle_step_def axis_check_def d vscale_def size_val_def)
  have "colors (pointMesh (onAnimate binary32 binary64 (Vec3f 0 0 0) 1 (cloud (Vec3f 10 0 0)))) ! 0 = HSV 0.05 1 1"
    using onAnimate_particle(2) [OF len N_pos, of binary32 binary64 "Vec3f 0 0 0" 1]
    by (simp add: cloud_nth N_pos cloud_time c fmod_def trunc_def binary64_nat [of 1, simplified])
  moreover have "colors (pointMesh (onAnimate binary32 binary64 (Vec3f 0 0 0) 7 (cloud (Vec3f 10 0 0)))) ! 0 = HSV 0.35 1 1"
    using onAnimate_particle(2) [OF len N_pos, of binary32 binary64 "Vec3f 0 0 0" 7]
    by (simp add: cloud_nth N_pos cloud_time c fmod_def trunc_def binary64_nat [of 7, simplified])
  ultimately show ?thesis
    using positions_independent_of_dt [OF well_formed_cloud, of binary32 binary64 "Vec3f 0 0 0" 1 "Vec3f 10 0 0" 7]
    by simp
qed


section \<open>Initialisation of the point mesh\<close>

lemma create_loop_nth:
  assumes "length (vertices m) = i" "length (colors m) = i" "i \<le> n"
  shows "length (vertices (create_loop rnd n i m)) = n \<and>
         length (colors (create_loop rnd n i m)) = n \<and>
         (\<forall>k<n. vertices (create_loop rnd n i m) ! k =
                  (if k < i then vertices m ! k else new_vertex (rnd (2 * k)) (rnd (2 * k + 1))) \<and>
                colors (create_loop rnd n i m) ! k =
                  (if k < i then colors m ! k else HSV 0.7 1.0 1.0))"
  using assms
proof (induction rnd n i m rule: create_loop.induct)
  case (1 rnd n i m)
  show ?case
  proof (cases "i < n")
    case True
    let ?m' = "create_body rnd i m"
    have unfold: "create_loop rnd n i m = create_loop rnd n (Suc i) ?m'"
      using True by (subst create_loop.simps) simp
    have body: "vertices ?m' = vertices m @ [new_vertex (rnd (2 * i)) (rnd (2 * i + 1))]"
               "colors ?m' = colors m @ [HSV 0.7 1.0 1.0]"
      by (simp_all add: create_body_def Let_def)
    have ih: "length (vertices (create_loop rnd n (Suc i) ?m')) = n \<and>
         length (colors (create_loop rnd n (Suc i) ?m')) = n \<and>
         (\<forall>k<n. vertices (create_loop rnd n (Suc i) ?m') ! k =
                  (if k < Suc i then vertices ?m' ! k else new_vertex (rnd (2 * k)) (rnd (2 * k + 1))) \<and>
                colors (create_loop rnd n (Suc i) ?m') ! k =
                  (if k < Suc i then colors ?m' ! k else HSV 0.7 1.0 1.0))"
      using "1.IH" [OF True] "1.prems" True by (simp add: body)
    show ?thesis
      unfolding unfold using ih "1.prems"
      by (auto simp: body nth_append less_Suc_eq)
  next
    case False
    then have "i = n" using "1.prems" by simp
    then show ?thesis using "1.prems" by (subst (1 2 3 4) create_loop.simps) simp
  qed
qed

lemma onCreate_mesh:
  shows "length (vertices (pointMesh (onCreate rnd app_init))) = N"
    and "length (colors (pointMesh (onCreate rnd app_init))) = N"
    and "k < N \<Longrightarrow> vertices (pointMesh (onCreate rnd app_init)) ! k =
                      new_vertex (rnd (2 * k)) (rnd (2 * k + 1))"
    and "k < N \<Longrightarrow> colors (pointMesh (onCreate rnd app_init)) ! k = HSV 0.7 1.0 1.0"
  using create_loop_nth [of "\<lparr> vertices = [], colors = [] \<rparr>" 0 N rnd]
  by (simp_all add: onCreate_def app_init_def Let_def)

lemma sphere_sum:
  fixes r a b c d :: real
  shows "r * a * d * (r * a * d) + r * c * (r * c) + r * b * d * (r * b * d) =
         r\<^sup>2 * (d\<^sup>2 * (b\<^sup>2 + a\<^sup>2) + c\<^sup>2)"
  by (simp add: power2_eq_square algebra_simps)

lemma mag_sphere:
  "mag (Vec3f (r * cos h * sin v) (r * cos v) (r * sin h * sin v)) = \<bar>r\<bar>"
proof -
  have "r * cos h * sin v * (r * cos h * sin v) + r * cos v * (r * cos v) +
        r * sin h * sin v * (r * sin h * sin v) =
        r\<^sup>2 * ((sin v)\<^sup>2 * ((sin h)\<^sup>2 + (cos h)\<^sup>2) + (cos v)\<^sup>2)"
    by (rule sphere_sum)
  also have "\<dots> = r\<^sup>2"
    by simp
  finally show ?thesis
    by (simp add: mag_def)
qed

lemma mag_new_vertex: "mag (new_vertex h v) = 0.8"
  using mag_sphere [of "0.01" h v]
  by (simp add: new_vertex_def Let_def mag_vscale CLOUD_WIDTH_def)

text \<open>
  Claim C8. Whatever angles are drawn, \<^verbatim>\<open>onCreate\<close> places particle \<open>k\<close> at the point
  \<open>(0.01 cos h sin v, 0.01 cos v, 0.01 sin h sin v) * 80\<close>, at distance exactly \<open>0.8\<close> from
  the origin, and gives it the colour \<open>HSV 0.7 1.0 1.0\<close>.
\<close>

theorem initial_particles_on_sphere:
  assumes "k < N"
  shows "vertices (pointMesh (onCreate rnd app_init)) ! k =
           vscale (Vec3f (0.01 * cos (rnd (2 * k)) * sin (rnd (2 * k + 1)))
                         (0.01 * cos (rnd (2 * k + 1)))
                         (0.01 * sin (rnd (2 * k)) * sin (rnd (2 * k + 1)))) 80.0 \<and>
         mag (vertices (pointMesh (onCreate rnd app_init)) ! k) = 0.8 \<and>
         colors (pointMesh (onCreate rnd app_init)) ! k = HSV 0.7 1.0 1.0"
  using assms mag_new_vertex [of "rnd (2 * k)" "rnd (2 * k + 1)"]
  by (simp add: onCreate_mesh) (simp add: new_vertex_def CLOUD_WIDTH_def)

theorem initial_particles_on_sphere_witness:
  "vertices (pointMesh (onCreate (\<lambda>k. 0) app_init)) ! 0 = Vec3f 0 0.8 0 \<and>
   mag (vertices (pointMesh (onCreate (\<lambda>k. 0) app_init)) ! 0) = 0.8 \<and>
   colors (pointMesh (onCreate (\<lambda>k. 0) app_init)) ! 0 = HSV 0.7 1.0 1.0"
proof -
  note t = initial_particles_on_sphere [OF N_pos, of "\<lambda>k. 0"]
  have "vertices (pointMesh (onCreate (\<lambda>k. 0) app_init)) ! 0 = Vec3f 0 0.8 0"
    using t by (simp add: vscale_def)
  moreover have "mag (vertices (pointMesh (onCreate (\<lambda>k. 0) app_init)) ! 0) = 0.8"
    by (rule t [THEN conjunct2, THEN conjunct1])
  moreover have "colors (pointMesh (onCreate (\<lambda>k. 0) app_init)) ! 0 = HSV 0.7 1.0 1.0"
    by (rule t [THEN conjunct2, THEN conjunct2])
  ultimately show ?thesis by blast
qed



section \<open>The boundary invariant\<close>

lemma drift_zero: "drift degenerate (Vec3f 0 0 0) = degenerate"
  by (simp add: drift_def normalize_def mag_def vadd_def)

lemma abs_drift_component_tight:
  assumes "v \<noteq> Vec3f 0 0 0" "\<bar>a\<bar> \<le> mag v" "\<bar>a\<bar> \<le> size_val"
  shows "\<bar>a * (1 + increment / mag v)\<bar> \<le> size_val + increment"
proof -
  have pos: "0 < mag v"
    using assms(1) mag_nonneg [of v] mag_eq_0_iff [of v] by linarith
  have "0 \<le> 1 + increment / mag v"
    using pos by (simp add: increment_def)
  then have "\<bar>a * (1 + increment / mag v)\<bar> = \<bar>a\<bar> * (1 + increment / mag v)"
    by (simp add: abs_mult)
  also have "\<dots> = \<bar>a\<bar> + increment * (\<bar>a\<bar> / mag v)"
    by (simp add: algebra_simps)
  finally have "\<bar>a * (1 + increment / mag v)\<bar> = \<bar>a\<bar> + increment * (\<bar>a\<bar> / mag v)" .
  moreover have "\<bar>a\<bar> / mag v \<le> 1"
    using pos assms(2) by (simp add: field_simps)
  then have "increment * (\<bar>a\<bar> / mag v) \<le> increment"
    by (simp add: increment_def)
  ultimately show ?thesis
    using assms(3) by simp
qed

lemma drift_in_cube_tight:
  assumes "v \<noteq> Vec3f 0 0 0" "in_cube size_val v"
  shows "in_cube (size_val + increment) (drift degenerate v)"
  using assms abs_drift_component_tight [OF assms(1), of "vx v"]
        abs_drift_component_tight [OF assms(1), of "vy v"]
        abs_drift_component_tight [OF assms(1), of "vz v"]
  by (simp add: drift_nonzero in_cube_def vscale_def abs_component_le_mag)

lemma in_cube_mono: "in_cube b v \<Longrightarrow> b \<le> b' \<Longrightarrow> in_cube b' v"
  by (auto simp: in_cube_def)

lemma drift_in_cube:
  assumes "v \<noteq> Vec3f 0 0 0" "in_cube size_val v"
  shows "in_cube 10000000 (drift degenerate v)"
  using drift_in_cube_tight [OF assms]
  by (rule in_cube_mono) (simp add: size_val_def increment_def)

lemma particle_step_in_cube:
  assumes "in_cube 10000000 (drift degenerate v)"
  shows "in_cube size_val (fst (particle_step degenerate t (v, c)))"
proof (cases "in_cube size_val (drift degenerate v)")
  case True
  then show ?thesis by (simp add: particle_step_no_collapse)
next
  case False
  then show ?thesis
    using particle_step_collapse [OF False assms, of t c] in_cube_collapsed [OF assms] by simp
qed

lemma axis_check_nonzero:
  assumes "fst p \<noteq> Vec3f 0 0 0"
  shows "fst (axis_check t axis p) \<noteq> Vec3f 0 0 0"
proof -
  have "mag (fst p) \<noteq> 0" using assms by (simp add: mag_eq_0_iff)
  then have "mag (vscale (fst p) 0.000001) \<noteq> 0" by (simp add: mag_vscale)
  then have "vscale (fst p) 0.000001 \<noteq> Vec3f 0 0 0" by (simp add: mag_eq_0_iff)
  then show ?thesis using assms by (simp add: fst_axis_check)
qed

lemma particle_step_nonzero:
  assumes "v \<noteq> Vec3f 0 0 0"
  shows "fst (particle_step degenerate t (v, c)) \<noteq> Vec3f 0 0 0"
proof -
  have "mag (drift degenerate v) \<noteq> 0"
    using mag_drift [OF assms, of degenerate] mag_nonneg [of v] by (simp add: increment_def)
  then have "drift degenerate v \<noteq> Vec3f 0 0 0" by (simp add: mag_eq_0_iff)
  then show ?thesis
    by (simp add: particle_step_def axis_check_nonzero)
qed

lemma new_vertex_in_cube: "in_cube size_val (new_vertex h v) \<and> new_vertex h v \<noteq> Vec3f 0 0 0"
proof -
  have "\<bar>vx (new_vertex h v)\<bar> \<le> 0.8" "\<bar>vy (new_vertex h v)\<bar> \<le> 0.8" "\<bar>vz (new_vertex h v)\<bar> \<le> 0.8"
    using abs_component_le_mag [of "new_vertex h v"] by (simp_all add: mag_new_vertex)
  then have "in_cube size_val (new_vertex h v)"
    by (simp add: in_cube_def size_val_def)
  moreover have "mag (new_vertex h v) \<noteq> 0" by (simp add: mag_new_vertex)
  then have "new_vertex h v \<noteq> Vec3f 0 0 0" by (simp add: mag_eq_0_iff)
  ultimately show ?thesis by simp
qed

lemma step_in_cube:
  assumes "well_formed s" "k < N" "in_cube size_val (vertices (pointMesh s) ! k)"
    and "vertices (pointMesh s) ! k \<noteq> Vec3f 0 0 0 \<or> in_cube 10000000 degenerate"
  shows "in_cube size_val (vertices (pointMesh (onAnimate f32 f64 degenerate dt s)) ! k)"
proof -
  have len: "N \<le> length (vertices (pointMesh s))" "N \<le> length (colors (pointMesh s))"
    using assms(1) by (simp_all add: well_formed_def)
  have "in_cube 10000000 (drift degenerate (vertices (pointMesh s) ! k))"
  proof (cases "vertices (pointMesh s) ! k = Vec3f 0 0 0")
    case True
    then show ?thesis using assms(4) by (simp add: drift_zero)
  next
    case False
    then show ?thesis using assms(3) by (rule drift_in_cube)
  qed
  then show ?thesis
    using onAnimate_particle(1) [OF len assms(2), of f32 f64 degenerate dt]
    by (simp add: particle_step_in_cube)
qed

lemma well_formed_onAnimate:
  assumes "well_formed s"
  shows "well_formed (onAnimate f32 f64 degenerate dt s)"
proof -
  have len: "N \<le> length (vertices (pointMesh s))" "N \<le> length (colors (pointMesh s))"
    using assms by (simp_all add: well_formed_def)
  show ?thesis
    using onAnimate_particle(3,4) [OF len N_pos, of f32 f64 degenerate dt] assms
    by (simp add: well_formed_def)
qed

lemma reachable_invariant:
  assumes "reachable f32 f64 degenerate s"
  shows "well_formed s \<and>
         (\<forall>k<N. in_cube size_val (vertices (pointMesh s) ! k) \<and>
                vertices (pointMesh s) ! k \<noteq> Vec3f 0 0 0)"
  using assms
proof (induction rule: reachable.induct)
  case (created rnd)
  show ?case
    by (simp add: well_formed_def onCreate_mesh new_vertex_in_cube)
next
  case (animated s dt)
  then have wf: "well_formed s" by simp
  have len: "N \<le> length (vertices (pointMesh s))" "N \<le> length (colors (pointMesh s))"
    using wf by (simp_all add: well_formed_def)
  show ?case
  proof (intro conjI allI impI)
    show "well_formed (onAnimate f32 f64 degenerate dt s)"
      using wf by (rule well_formed_onAnimate)
  next
    fix k assume k: "k < N"
    show "in_cube size_val (vertices (pointMesh (onAnimate f32 f64 degenerate dt s)) ! k)"
      using animated.IH k by (intro step_in_cube) simp_all
  next
    fix k assume k: "k < N"
    show "vertices (pointMesh (onAnimate f32 f64 degenerate dt s)) ! k \<noteq> Vec3f 0 0 0"
      using animated.IH k onAnimate_particle(1) [OF len k, of f32 f64 degenerate dt]
      by (simp add: particle_step_nonzero)
  qed
qed

text \<open>
  Claim C9. If the mesh holds \<^verbatim>\<open>N\<close> particles whose components all have absolute value
  at most \<open>size = 10\<close> before a step, then so they have after it. For a particle exactly
  at the origin the drift is whatever the framework's \<^verbatim>\<open>normalize\<close> returns for a
  zero-length vector, so the step is stated for states with no particle at the origin,
  or for a framework whose answer there has components of at most \<open>10\<^sup>7\<close>. Every state
  reached from \<^verbatim>\<open>onCreate\<close> has all particles within the boundary (and none at the
  origin), before and after a further step, whatever the framework's answer is.
\<close>

theorem bounded_position_invariant:
  "(well_formed s \<and> (\<forall>k<N. in_cube size_val (vertices (pointMesh s) ! k)) \<and>
      ((\<forall>k<N. vertices (pointMesh s) ! k \<noteq> Vec3f 0 0 0) \<or> in_cube 10000000 degenerate)
    \<longrightarrow> (\<forall>k<N. in_cube size_val (vertices (pointMesh (onAnimate f32 f64 degenerate dt s)) ! k))) \<and>
   (reachable f32 f64 degenerate s
    \<longrightarrow> (\<forall>k<N. in_cube size_val (vertices (pointMesh s) ! k)) \<and>
        (\<forall>k<N. in_cube size_val (vertices (pointMesh (onAnimate f32 f64 degenerate dt s)) ! k)))"
proof (intro conjI impI allI)
  fix k
  assume "well_formed s \<and> (\<forall>k<N. in_cube size_val (vertices (pointMesh s) ! k)) \<and>
      ((\<forall>k<N. vertices (pointMesh s) ! k \<noteq> Vec3f 0 0 0) \<or> in_cube 10000000 degenerate)"
    and "k < N"
  then show "in_cube size_val (vertices (pointMesh (onAnimate f32 f64 degenerate dt s)) ! k)"
    by (intro step_in_cube) auto
next
  fix k
  assume "reachable f32 f64 degenerate s" and "k < N"
  then show "in_cube size_val (vertices (pointMesh s) ! k)"
    using reachable_invariant [of f32 f64 degenerate s] by simp
next
  fix k
  assume "reachable f32 f64 degenerate s" and "k < N"
  then show "in_cube size_val (vertices (pointMesh (onAnimate f32 f64 degenerate dt s)) ! k)"
    using reachable_invariant [OF reachable.animated, of f32 f64 degenerate s dt] by simp
qed

theorem bounded_position_invariant_witness:
  "in_cube size_val (Vec3f 10 0 0) \<and> Vec3f 10 0 0 \<noteq> Vec3f 0 0 0 \<and>
   in_cube size_val (vertices (pointMesh (onAnimate binary32 binary64 (Vec3f 0 0 0) 1 (cloud (Vec3f 10 0 0)))) ! 0) \<and>
   reachable binary32 binary64 (Vec3f 0 0 0) (onCreate (\<lambda>k. 0) app_init) \<and>
   in_cube size_val
     (vertices (pointMesh (onAnimate binary32 binary64 (Vec3f 0 0 0) 1 (onCreate (\<lambda>k. 0) app_init))) ! 0)"
proof -
  note t1 = bounded_position_invariant [of "cloud (Vec3f 10 0 0)" "Vec3f 0 0 0" binary32 binary64 1, THEN conjunct1]
  note t2 = bounded_position_invariant [of "onCreate (\<lambda>k. 0) app_init" "Vec3f 0 0 0" binary32 binary64 1, THEN conjunct2]
  have r: "reachable binary32 binary64 (Vec3f 0 0 0) (onCreate (\<lambda>k. 0) app_init)"
    by (rule reachable.created)
  have c: "in_cube size_val (Vec3f 10 0 0)"
    by (simp add: in_cube_def size_val_def)
  have "in_cube size_val (vertices (pointMesh (onAnimate binary32 binary64 (Vec3f 0 0 0) 1 (cloud (Vec3f 10 0 0)))) ! 0)"
    using t1 c N_pos by (simp add: well_formed_cloud cloud_nth)
  moreover have "in_cube size_val
     (vertices (pointMesh (onAnimate binary32 binary64 (Vec3f 0 0 0) 1 (onCreate (\<lambda>k. 0) app_init))) ! 0)"
    using t2 r N_pos by simp
  ultimately show ?thesis using r c by simp
qed




section \<open>The collapse at the boundary\<close>

lemma reachable_drift_tight:
  assumes "reachable f32 f64 degenerate s" "k < N"
  shows "in_cube (size_val + increment) (drift degenerate (vertices (pointMesh s) ! k))"
  using reachable_invariant [OF assms(1)] assms(2) by (simp add: drift_in_cube_tight)

lemma mag_le_sum: "mag v \<le> \<bar>vx v\<bar> + \<bar>vy v\<bar> + \<bar>vz v\<bar>"
proof -
  define a b c where "a = \<bar>vx v\<bar>" and "b = \<bar>vy v\<bar>" and "c = \<bar>vz v\<bar>"
  have nn: "0 \<le> a" "0 \<le> b" "0 \<le> c" by (simp_all add: a_def b_def c_def)
  have sq: "vx v * vx v = a * a" "vy v * vy v = b * b" "vz v * vz v = c * c"
    by (simp_all add: a_def b_def c_def)
  have "0 \<le> 2 * (a * b + b * c + c * a)"
    using nn by simp
  moreover have "(a + b + c)\<^sup>2 = a * a + b * b + c * c + 2 * (a * b + b * c + c * a)"
    by (simp add: power2_eq_square algebra_simps)
  ultimately have "a * a + b * b + c * c \<le> (a + b + c)\<^sup>2" by linarith
  then have "sqrt (a * a + b * b + c * c) \<le> sqrt ((a + b + c)\<^sup>2)"
    by (simp only: real_sqrt_le_iff)
  also have "\<dots> = a + b + c" using nn by simp
  finally show ?thesis
    unfolding mag_def sq a_def b_def c_def .
qed

lemma collapsed_near_zero:
  assumes "in_cube (size_val + increment) p"
  shows "mag (vscale p 0.000001) \<le> 0.00004"
proof -
  have "mag p \<le> 3 * (size_val + increment)"
    using mag_le_sum [of p] assms by (simp add: in_cube_def)
  then have "mag p \<le> 30.03" by (simp add: size_val_def increment_def)
  then show ?thesis by (simp add: mag_vscale)
qed

text \<open>
  Claim C1. In every state that the program reaches (\<^verbatim>\<open>onCreate\<close>, then any number of
  frames), for every particle \<open>k\<close>: if after the positional update of the next step one
  of its components has absolute value above \<open>size = 10\<close>, then at the end of that step
  its position is the pre-check position times \<open>0.000001\<close>, its colour is
  \<open>HSV (fmod (elapsedTime * 0.05) 1.0) 1.0 1.0\<close> for the elapsed time of that step, and its
  distance from the origin is at most \<open>0.00004\<close>. The two later axis tests do not fire
  again, because in a reachable state no pre-check component exceeds \<open>10.01\<close>.
\<close>

theorem collapse_position_and_color:
  assumes "reachable f32 f64 degenerate s" and "k < N"
    and "\<not> in_cube size_val (drift degenerate (vertices (pointMesh s) ! k))"
  shows "vertices (pointMesh (onAnimate f32 f64 degenerate dt s)) ! k =
           vscale (drift degenerate (vertices (pointMesh s) ! k)) 0.000001 \<and>
         colors (pointMesh (onAnimate f32 f64 degenerate dt s)) ! k =
           HSV (fmod (ellapsedTime (onAnimate f32 f64 degenerate dt s) * 0.05) 1.0) 1.0 1.0 \<and>
         mag (vertices (pointMesh (onAnimate f32 f64 degenerate dt s)) ! k) \<le> 0.00004"
proof -
  let ?p = "drift degenerate (vertices (pointMesh s) ! k)"
  have len: "N \<le> length (vertices (pointMesh s))" "N \<le> length (colors (pointMesh s))"
    using reachable_invariant [OF assms(1)] by (simp_all add: well_formed_def)
  have tight: "in_cube (size_val + increment) ?p"
    using assms(1,2) by (rule reachable_drift_tight)
  then have wide: "in_cube 10000000 ?p"
    by (rule in_cube_mono) (simp add: size_val_def increment_def)
  have step: "particle_step degenerate t (vertices (pointMesh s) ! k, c) =
                (vscale ?p 0.000001, HSV (fmod (t * 0.05) 1.0) 1.0 1.0)" for t c
    using assms(3) wide by (rule particle_step_collapse)
  have pos: "vertices (pointMesh (onAnimate f32 f64 degenerate dt s)) ! k = vscale ?p 0.000001"
    using onAnimate_particle(1) [OF len assms(2), of f32 f64 degenerate dt] by (simp add: step)
  have col: "colors (pointMesh (onAnimate f32 f64 degenerate dt s)) ! k =
               HSV (fmod (ellapsedTime (onAnimate f32 f64 degenerate dt s) * 0.05) 1.0) 1.0 1.0"
    using onAnimate_particle(2) [OF len assms(2), of f32 f64 degenerate dt]
    by (simp add: step onAnimate_ellapsedTime)
  show ?thesis
    using pos col collapsed_near_zero [OF tight] by simp
qed

text \<open>
  A run that reaches the boundary: with both angles drawn as \<open>0\<close>, particle \<open>0\<close> starts at
  \<open>(0, 0.8, 0)\<close> and climbs by \<open>0.01\<close> per frame; after \<open>920\<close> frames it is at \<open>(0, 10, 0)\<close>,
  and frame \<open>921\<close> collapses it.
\<close>

lemma mag_y_axis: "0 \<le> a \<Longrightarrow> mag (Vec3f 0 a 0) = a"
  by (simp add: mag_def)

lemma drift_y_axis:
  assumes "0 < a"
  shows "drift degenerate (Vec3f 0 a 0) = Vec3f 0 (a + 0.01) 0"
  using assms
  by (simp add: drift_def normalize_def mag_y_axis vadd_def vscale_def increment_def)

lemma reachable_funpow:
  "reachable f32 f64 degenerate ((onAnimate f32 f64 degenerate dt ^^ n) (onCreate rnd app_init))"
  by (induction n) (simp_all add: reachable.created reachable.animated)

lemma climb:
  assumes "n \<le> 920"
  shows "vertices (pointMesh ((onAnimate f32 f64 degenerate dt ^^ n) (onCreate (\<lambda>k. 0) app_init))) ! 0 =
           Vec3f 0 (0.8 + 0.01 * real n) 0"
  using assms
proof (induction n)
  case 0
  show ?case
    using onCreate_mesh(3) [OF N_pos, of "\<lambda>k. 0"]
    by (simp add: new_vertex_def vscale_def CLOUD_WIDTH_def)
next
  case (Suc n)
  let ?s = "(onAnimate f32 f64 degenerate dt ^^ n) (onCreate (\<lambda>k. 0) app_init)"
  have v: "vertices (pointMesh ?s) ! 0 = Vec3f 0 (0.8 + 0.01 * real n) 0"
    using Suc by simp
  have len: "N \<le> length (vertices (pointMesh ?s))" "N \<le> length (colors (pointMesh ?s))"
    using reachable_invariant [OF reachable_funpow [where ?f32.0 = f32 and ?f64.0 = f64
            and degenerate = degenerate and dt = dt and n = n and rnd = "\<lambda>k. 0"]]
    by (simp_all add: well_formed_def)
  have d: "drift degenerate (vertices (pointMesh ?s) ! 0) = Vec3f 0 (0.8 + 0.01 * real n + 0.01) 0"
    unfolding v by (rule drift_y_axis) simp
  have "real n \<le> 919" using Suc.prems by simp
  then have "in_cube size_val (drift degenerate (vertices (pointMesh ?s) ! 0))"
    unfolding d by (simp add: in_cube_def size_val_def)
  then have "vertices (pointMesh (onAnimate f32 f64 degenerate dt ?s)) ! 0 =
               drift degenerate (vertices (pointMesh ?s) ! 0)"
    using onAnimate_particle(1) [OF len N_pos, of f32 f64 degenerate dt]
    by (simp add: particle_step_no_collapse)
  moreover have "0.8 + 0.01 * real n + 0.01 = 0.8 + 0.01 * real (Suc n)"
    by (simp add: field_simps)
  ultimately show ?case
    by (simp only: d funpow.simps o_apply)
qed

theorem collapse_position_and_color_witness:
  "reachable binary32 binary64 (Vec3f 0 0 0)
     ((onAnimate binary32 binary64 (Vec3f 0 0 0) 1 ^^ 920) (onCreate (\<lambda>k. 0) app_init)) \<and>
   vertices (pointMesh ((onAnimate binary32 binary64 (Vec3f 0 0 0) 1 ^^ 920)
     (onCreate (\<lambda>k. 0) app_init))) ! 0 = Vec3f 0 10 0 \<and>
   vertices (pointMesh ((onAnimate binary32 binary64 (Vec3f 0 0 0) 1 ^^ 921)
     (onCreate (\<lambda>k. 0) app_init))) ! 0 = Vec3f 0 0.00001001 0 \<and>
   colors (pointMesh ((onAnimate binary32 binary64 (Vec3f 0 0 0) 1 ^^ 921)
     (onCreate (\<lambda>k. 0) app_init))) ! 0 =
     HSV (fmod (ellapsedTime ((onAnimate binary32 binary64 (Vec3f 0 0 0) 1 ^^ 921)
       (onCreate (\<lambda>k. 0) app_init)) * 0.05) 1.0) 1.0 1.0"
proof -
  let ?s = "(onAnimate binary32 binary64 (Vec3f 0 0 0) 1 ^^ 920) (onCreate (\<lambda>k. 0) app_init)"
  have r: "reachable binary32 binary64 (Vec3f 0 0 0) ?s"
    by (rule reachable_funpow)
  have v: "vertices (pointMesh ?s) ! 0 = Vec3f 0 10 0"
    using climb [where n = 920 and ?f32.0 = binary32 and ?f64.0 = binary64
                   and degenerate = "Vec3f 0 0 0" and dt = 1] by simp
  have d: "drift (Vec3f 0 0 0) (vertices (pointMesh ?s) ! 0) = Vec3f 0 10.01 0"
    unfolding v using drift_y_axis [of 10 "Vec3f 0 0 0"] by simp
  have h: "\<not> in_cube size_val (drift (Vec3f 0 0 0) (vertices (pointMesh ?s) ! 0))"
    unfolding d by (simp add: in_cube_def size_val_def)
  have next_state: "(onAnimate binary32 binary64 (Vec3f 0 0 0) 1 ^^ 921) (onCreate (\<lambda>k. 0) app_init) =
          onAnimate binary32 binary64 (Vec3f 0 0 0) 1 ?s"
    using funpow.simps(2) [of 920 "onAnimate binary32 binary64 (Vec3f 0 0 0) 1"]
    by (simp del: funpow.simps)
  show ?thesis
    using collapse_position_and_color [OF r N_pos h, where dt = 1] r v
    unfolding next_state d by (simp add: vscale_def)
qed

section \<open>The frame state and the uniforms\<close>

lemma onDraw_uniform:
  "uniform (onDraw f32 s g) ''phase'' = Some (f32 (ellapsedTime s))"
  "uniform (onDraw f32 s g) ''halfSize'' = Some (halfSize s)"
  by (simp_all add: onDraw_def Let_def)

lemma wrappedPhase_range:
  assumes "rounding f32"
  shows "(0 \<le> accumulatedPhase f32 f64 ph dt \<and> accumulatedPhase f32 f64 ph dt < 3
            \<longrightarrow> 0 \<le> wrappedPhase f32 f64 ph dt \<and> wrappedPhase f32 f64 ph dt < 3) \<and>
         (3 < accumulatedPhase f32 f64 ph dt \<and> accumulatedPhase f32 f64 ph dt \<le> 6
            \<longrightarrow> 0 \<le> wrappedPhase f32 f64 ph dt \<and> wrappedPhase f32 f64 ph dt \<le> 3) \<and>
         (accumulatedPhase f32 f64 ph dt = 3 \<or> 6 \<le> accumulatedPhase f32 f64 ph dt
            \<longrightarrow> 3 \<le> wrappedPhase f32 f64 ph dt)"
proof -
  define a where "a = accumulatedPhase f32 f64 ph dt"
  have w: "wrappedPhase f32 f64 ph dt = (if a > 3 then f32 (a - 3) else a)"
    by (simp add: wrappedPhase_def a_def Let_def)
  have up: "3 < a \<Longrightarrow> a \<le> 6 \<Longrightarrow> 0 \<le> f32 (a - 3) \<and> f32 (a - 3) \<le> 3"
    using rounding_mono [OF assms, of 0 "a - 3"] rounding_mono [OF assms, of "a - 3" 3]
    by (simp add: rounding_0 [OF assms] rounding_3 [OF assms])
  have far: "6 \<le> a \<Longrightarrow> 3 \<le> f32 (a - 3)"
    using rounding_mono [OF assms, of 3 "a - 3"] by (simp add: rounding_3 [OF assms])
  show ?thesis
    unfolding a_def [symmetric] w using up far by auto
qed

text \<open>
  Claim C3, as amended. One tick adds \<open>dt\<close> to the elapsed time and to the phase (the
  phase is stored as a \<^verbatim>\<open>float\<close>), subtracts \<open>3\<close> from the stored phase once if it
  exceeds \<open>3\<close>, derives \<open>halfSize = 0.2 * wrappedPhase / 3\<close> from that value and only then
  stores the constant \<open>1.0\<close> as the phase. At draw time the uniform \<^verbatim>\<open>phase\<close> is the
  elapsed time cast to \<^verbatim>\<open>float\<close>, whatever the stored phase is, and the uniform
  \<^verbatim>\<open>halfSize\<close> is the value derived before the override. The value after the single
  subtraction lies in \<open>[0,3)\<close> when the accumulated phase does, in \<open>[0,3]\<close> when the
  accumulated phase lies in \<open>(3,6]\<close>, and is at least \<open>3\<close> when the accumulated phase is
  exactly \<open>3\<close> or at least \<open>6\<close>.
\<close>

theorem tick_order_and_uniforms:
  assumes "rounding f32" and "rounding f64"
  shows
  "ellapsedTime (onAnimate f32 f64 degenerate dt s) = f64 (ellapsedTime s + dt) \<and>
   accumulatedPhase f32 f64 (phase s) dt = f32 (f64 (phase s + dt)) \<and>
   wrappedPhase f32 f64 (phase s) dt =
     (if accumulatedPhase f32 f64 (phase s) dt > 3
      then f32 (accumulatedPhase f32 f64 (phase s) dt - 3)
      else accumulatedPhase f32 f64 (phase s) dt) \<and>
   halfSize (onAnimate f32 f64 degenerate dt s) =
     f32 (f64 (f64 (f64 0.2 * wrappedPhase f32 f64 (phase s) dt) / 3)) \<and>
   phase (onAnimate f32 f64 degenerate dt s) = 1.0 \<and>
   uniform (onDraw f32 (onAnimate f32 f64 degenerate dt s) g) ''phase'' =
     Some (f32 (f64 (ellapsedTime s + dt))) \<and>
   uniform (onDraw f32 (onAnimate f32 f64 degenerate dt s) g) ''halfSize'' =
     Some (f32 (f64 (f64 (f64 0.2 * wrappedPhase f32 f64 (phase s) dt) / 3))) \<and>
   uniform (onDraw f32 (s\<lparr> phase := p \<rparr>) g) ''phase'' = uniform (onDraw f32 s g) ''phase'' \<and>
   (0 \<le> accumulatedPhase f32 f64 (phase s) dt \<and> accumulatedPhase f32 f64 (phase s) dt < 3
      \<longrightarrow> 0 \<le> wrappedPhase f32 f64 (phase s) dt \<and> wrappedPhase f32 f64 (phase s) dt < 3) \<and>
   (3 < accumulatedPhase f32 f64 (phase s) dt \<and> accumulatedPhase f32 f64 (phase s) dt \<le> 6
      \<longrightarrow> 0 \<le> wrappedPhase f32 f64 (phase s) dt \<and> wrappedPhase f32 f64 (phase s) dt \<le> 3) \<and>
   (accumulatedPhase f32 f64 (phase s) dt = 3 \<or> 6 \<le> accumulatedPhase f32 f64 (phase s) dt
      \<longrightarrow> 3 \<le> wrappedPhase f32 f64 (phase s) dt)"
proof -
  have "wrappedPhase f32 f64 (phase s) dt =
     (if accumulatedPhase f32 f64 (phase s) dt > 3
      then f32 (accumulatedPhase f32 f64 (phase s) dt - 3)
      else accumulatedPhase f32 f64 (phase s) dt)"
    by (simp add: wrappedPhase_def Let_def)
  moreover have "accumulatedPhase f32 f64 (phase s) dt = f32 (f64 (phase s + dt))"
    by (simp add: accumulatedPhase_def)
  moreover note wrappedPhase_range [OF assms(1), of f64 "phase s" dt]
  ultimately show ?thesis
    by (simp only: onDraw_uniform onAnimate_ellapsedTime onAnimate_halfSize onAnimate_phase
                   simp_thms)
       (simp add: onDraw_def Let_def)
qed

text \<open>Some values of the two roundings, by evaluation.\<close>

lemma binary32_values:
  "binary32 0 = 0" "binary32 1 = 1" "binary32 3 = 3" "binary32 4 = 4" "binary32 7 = 7"
  using binary32_nat [of 0] binary32_nat [of 1] binary32_nat [of 3] binary32_nat [of 4]
        binary32_nat [of 7]
  by simp_all

lemma binary64_values:
  "binary64 0 = 0" "binary64 1 = 1" "binary64 3 = 3" "binary64 4 = 4" "binary64 7 = 7"
  using binary64_nat [of 0] binary64_nat [of 1] binary64_nat [of 3] binary64_nat [of 4]
        binary64_nat [of 7]
  by simp_all

lemma binary_three_halves: "binary64 (3 / 2) = 3 / 2" "binary32 (3 / 2) = 3 / 2"
  unfolding binary32_def binary64_def
  by (subst fround_eval [where e = 0]; simp add: rne_def)+

lemma binary_just_above_3:
  "binary64 (50331649 / 16777216) = 50331649 / 16777216" "binary32 (50331649 / 16777216) = 3"
  unfolding binary32_def binary64_def
  by (subst fround_eval [where e = 1]; simp add: rne_def)+

lemma binary64_fifth: "binary64 (1 / 5) = 3602879701896397 / 18014398509481984"
  unfolding binary64_def
  by (subst fround_eval [where e = "- 3"]; simp add: rne_def)

lemma halfSize_at_3:
  "binary32 (binary64 (binary64 (binary64 (1 / 5) * 3) / 3)) = 13421773 / 67108864"
proof -
  have a: "binary64 (1 / 5) * 3 = 10808639105689191 / 18014398509481984"
    by (simp add: binary64_fifth)
  have b: "binary64 (10808639105689191 / 18014398509481984) = 5404319552844596 / 9007199254740992"
    unfolding binary64_def
    by (subst fround_eval [where e = "- 1"]; simp add: rne_def)
  have c: "binary64 (5404319552844596 / 9007199254740992 / 3) = 7205759403792795 / 36028797018963968"
    unfolding binary64_def
    by (subst fround_eval [where e = "- 3"]; simp add: rne_def)
  have d: "binary32 (7205759403792795 / 36028797018963968) = 13421773 / 67108864"
    unfolding binary32_def
    by (subst fround_eval [where e = "- 3"]; simp add: rne_def)
  show ?thesis
    unfolding a b c d ..
qed

lemma phase_after_tick:
  "phase (onAnimate binary32 binary64 (Vec3f 0 0 0) 1 (cloud (Vec3f 1 0 0))) = 1"
  by (rule onAnimate_phase)

theorem tick_order_and_uniforms_witness:
  "rounding binary32 \<and> rounding binary64 \<and>
   accumulatedPhase binary32 binary64 (phase (cloud (Vec3f 1 0 0))) (3 / 2) = 3 / 2 \<and>
   wrappedPhase binary32 binary64 (phase (cloud (Vec3f 1 0 0))) (3 / 2) = 3 / 2 \<and>
   halfSize (onAnimate binary32 binary64 (Vec3f 0 0 0) (3 / 2) (cloud (Vec3f 1 0 0))) =
     binary32 (binary64 (binary64 (binary64 0.2 * (3 / 2)) / 3)) \<and>
   uniform (onDraw binary32 (onAnimate binary32 binary64 (Vec3f 0 0 0) (3 / 2) (cloud (Vec3f 1 0 0)))
      g_init) ''phase'' = Some (3 / 2) \<and>
   accumulatedPhase binary32 binary64
     (phase (onAnimate binary32 binary64 (Vec3f 0 0 0) 1 (cloud (Vec3f 1 0 0)))) 3 = 4 \<and>
   wrappedPhase binary32 binary64
     (phase (onAnimate binary32 binary64 (Vec3f 0 0 0) 1 (cloud (Vec3f 1 0 0)))) 3 = 1 \<and>
   accumulatedPhase binary32 binary64
     (phase (onAnimate binary32 binary64 (Vec3f 0 0 0) 1 (cloud (Vec3f 1 0 0))))
     (2 + 1 / 2 ^ 24) = 3 \<and>
   wrappedPhase binary32 binary64
     (phase (onAnimate binary32 binary64 (Vec3f 0 0 0) 1 (cloud (Vec3f 1 0 0))))
     (2 + 1 / 2 ^ 24) = 3 \<and>
   halfSize (onAnimate binary32 binary64 (Vec3f 0 0 0) (2 + 1 / 2 ^ 24)
     (onAnimate binary32 binary64 (Vec3f 0 0 0) 1 (cloud (Vec3f 1 0 0)))) = 13421773 / 67108864"
proof -
  let ?s1 = "onAnimate binary32 binary64 (Vec3f 0 0 0) 1 (cloud (Vec3f 1 0 0))"
  note t = tick_order_and_uniforms [OF rounding_binary32 rounding_binary64]
  note a = t [where s = "cloud (Vec3f 1 0 0)" and dt = "3 / 2" and degenerate = "Vec3f 0 0 0"
               and g = g_init and p = 0]
  note b = t [where s = ?s1 and dt = 3 and degenerate = "Vec3f 0 0 0" and g = g_init and p = 0]
  note c = t [where s = ?s1 and dt = "2 + 1 / 2 ^ 24" and degenerate = "Vec3f 0 0 0"
               and g = g_init and p = 0]
  have a': "accumulatedPhase binary32 binary64 (phase (cloud (Vec3f 1 0 0))) (3 / 2) = 3 / 2"
    using a by (simp add: cloud_time binary_three_halves)
  have b': "accumulatedPhase binary32 binary64 (phase ?s1) 3 = 4"
    using b by (simp add: phase_after_tick binary32_values binary64_values)
  have c': "accumulatedPhase binary32 binary64 (phase ?s1) (2 + 1 / 2 ^ 24) = 3"
    using c by (simp add: phase_after_tick binary_just_above_3)
  have "wrappedPhase binary32 binary64 (phase (cloud (Vec3f 1 0 0))) (3 / 2) = 3 / 2"
    using a a' by simp
  moreover have "wrappedPhase binary32 binary64 (phase ?s1) 3 = 1"
    using b b' by (simp add: binary32_values)
  moreover have "wrappedPhase binary32 binary64 (phase ?s1) (2 + 1 / 2 ^ 24) = 3"
    using c c' by simp
  moreover have "halfSize (onAnimate binary32 binary64 (Vec3f 0 0 0) (2 + 1 / 2 ^ 24) ?s1) =
      13421773 / 67108864"
    using c \<open>wrappedPhase binary32 binary64 (phase ?s1) (2 + 1 / 2 ^ 24) = 3\<close>
    by (simp add: halfSize_at_3)
  moreover have "halfSize (onAnimate binary32 binary64 (Vec3f 0 0 0) (3 / 2) (cloud (Vec3f 1 0 0))) =
     binary32 (binary64 (binary64 (binary64 0.2 * (3 / 2)) / 3))"
    using a \<open>wrappedPhase binary32 binary64 (phase (cloud (Vec3f 1 0 0))) (3 / 2) = 3 / 2\<close>
    by simp
  moreover have "uniform (onDraw binary32 (onAnimate binary32 binary64 (Vec3f 0 0 0) (3 / 2)
      (cloud (Vec3f 1 0 0))) g_init) ''phase'' = Some (3 / 2)"
    using a by (simp add: cloud_time binary_three_halves)
  ultimately show ?thesis
    using a' b' c' rounding_binary32 rounding_binary64 by simp
qed

text \<open>
  Claim C3 as stated says that the phase is wrapped into \<open>[0,3)\<close>. The code subtracts
  \<open>3\<close> at most once: in the second tick of a run, with \<open>dt = 6\<close>, the stored phase \<open>1\<close>
  becomes \<open>7\<close>, and the value from which \<^verbatim>\<open>halfSize\<close> is derived is \<open>4\<close>.
\<close>

theorem wrap_leaves_range_counterexample:
  "phase (onAnimate binary32 binary64 (Vec3f 0 0 0) 1 (cloud (Vec3f 1 0 0))) = 1 \<and>
   accumulatedPhase binary32 binary64
     (phase (onAnimate binary32 binary64 (Vec3f 0 0 0) 1 (cloud (Vec3f 1 0 0)))) 6 = 7 \<and>
   wrappedPhase binary32 binary64
     (phase (onAnimate binary32 binary64 (Vec3f 0 0 0) 1 (cloud (Vec3f 1 0 0)))) 6 = 4 \<and>
   \<not> (wrappedPhase binary32 binary64
     (phase (onAnimate binary32 binary64 (Vec3f 0 0 0) 1 (cloud (Vec3f 1 0 0)))) 6 < 3) \<and>
   halfSize (onAnimate binary32 binary64 (Vec3f 0 0 0) 6
     (onAnimate binary32 binary64 (Vec3f 0 0 0) 1 (cloud (Vec3f 1 0 0)))) =
     binary32 (binary64 (binary64 (binary64 0.2 * 4) / 3))"
  by (simp add: onAnimate_phase onAnimate_halfSize wrappedPhase_def accumulatedPhase_def Let_def
                binary32_values binary64_values)

text \<open>
  Claim C10. After any tick the stored phase is \<open>1.0\<close>. So in a tick that follows another
  tick, with \<open>0 \<le> dt \<le> 2\<close>, the test \<open>phase > 3\<close> is false, on the exact sum and on the
  stored \<^verbatim>\<open>float\<close> alike, and \<open>halfSize\<close> is \<open>0.2 * (1.0 + dt) / 3\<close> as the program rounds
  it, whatever happened in the earlier frames. Only the first tick after \<^verbatim>\<open>onCreate\<close>
  starts from another phase, \<open>0\<close>, and gives \<open>0.2 * dt / 3\<close>. The last two conjuncts are
  the same equations in exact arithmetic.
\<close>

theorem phase_constant_after_tick:
  assumes "0 \<le> dt" and "dt \<le> 2" and "rounding f32" and "rounding f64"
  shows "phase (onAnimate f32 f64 degenerate0 dt0 s) = 1.0 \<and>
         \<not> (phase (onAnimate f32 f64 degenerate0 dt0 s) + dt > 3) \<and>
         \<not> (accumulatedPhase f32 f64 (phase (onAnimate f32 f64 degenerate0 dt0 s)) dt > 3) \<and>
         halfSize (onAnimate f32 f64 degenerate dt (onAnimate f32 f64 degenerate0 dt0 s)) =
           f32 (f64 (f64 (f64 0.2 * f32 (f64 (1.0 + dt))) / 3)) \<and>
         halfSize (onAnimate f32 f64 degenerate dt (onCreate rnd app_init)) =
           f32 (f64 (f64 (f64 0.2 * f32 (f64 dt)) / 3)) \<and>
         halfSize (onAnimate (\<lambda>x. x) (\<lambda>x. x) degenerate dt
                    (onAnimate f32 f64 degenerate0 dt0 s)) = 0.2 * (1.0 + dt) / 3 \<and>
         halfSize (onAnimate (\<lambda>x. x) (\<lambda>x. x) degenerate dt (onCreate rnd app_init)) =
           0.2 * dt / 3"
proof -
  have p0: "phase (onCreate rnd app_init) = 0"
    by (simp add: onCreate_def app_init_def Let_def)
  have le3: "f32 (f64 (1 + dt)) \<le> 3"
    using rounding_mono [OF assms(4), of "1 + dt" 3] rounding_mono [OF assms(3), of "f64 (1 + dt)" 3]
          assms(2) by (simp add: rounding_3 [OF assms(3)] rounding_3 [OF assms(4)])
  have le3': "f32 (f64 dt) \<le> 3"
    using rounding_mono [OF assms(4), of dt 3] rounding_mono [OF assms(3), of "f64 dt" 3]
          assms(2) by (simp add: rounding_3 [OF assms(3)] rounding_3 [OF assms(4)])
  show ?thesis
    using assms(1,2) le3 le3'
    by (simp add: onAnimate_phase onAnimate_halfSize wrappedPhase_def accumulatedPhase_def
                  Let_def p0 not_less)
qed

theorem phase_constant_after_tick_witness:
  "(0::real) \<le> 2 \<and> rounding binary32 \<and> rounding binary64 \<and>
   phase (onAnimate binary32 binary64 (Vec3f 0 0 0) 1 (cloud (Vec3f 1 0 0))) = 1 \<and>
   \<not> (accumulatedPhase binary32 binary64
        (phase (onAnimate binary32 binary64 (Vec3f 0 0 0) 1 (cloud (Vec3f 1 0 0)))) 2 > 3) \<and>
   halfSize (onAnimate binary32 binary64 (Vec3f 0 0 0) 2
     (onAnimate binary32 binary64 (Vec3f 0 0 0) 1 (cloud (Vec3f 1 0 0)))) =
     binary32 (binary64 (binary64 (binary64 0.2 * 3) / 3)) \<and>
   halfSize (onAnimate (\<lambda>x. x) (\<lambda>x. x) (Vec3f 0 0 0) 2
     (onAnimate binary32 binary64 (Vec3f 0 0 0) 1 (cloud (Vec3f 1 0 0)))) = 0.2 \<and>
   halfSize (onAnimate (\<lambda>x. x) (\<lambda>x. x) (Vec3f 0 0 0) 2 (onCreate (\<lambda>k. 0) app_init)) = 0.2 * 2 / 3"
  using phase_constant_after_tick [OF _ _ rounding_binary32 rounding_binary64,
          where dt = 2 and ?degenerate0.0 = "Vec3f 0 0 0" and ?dt0.0 = 1
            and s = "cloud (Vec3f 1 0 0)" and degenerate = "Vec3f 0 0 0" and rnd = "\<lambda>k. 0"]
        rounding_binary32 rounding_binary64
  by (simp add: binary32_values binary64_values accumulatedPhase_def onAnimate_phase)

section \<open>The quad emitted by the geometry shader\<close>

lemma mat_mul_add: "vadd4 (mat_mul m a) (mat_mul m b) = mat_mul m (vadd4 a b)"
proof (cases m)
  case (Mat4 r0 r1 r2 r3)
  have d: "dot4 r a + dot4 r b = dot4 r (vadd4 a b)" for r
    by (cases r; cases a; cases b) (simp add: algebra_simps)
  show ?thesis by (simp add: Mat4 d)
qed

text \<open>
  Claim C4. For an input point with view-space position \<open>v\<close> and colour \<open>c\<close>, one
  invocation of the geometry shader closes exactly one triangle strip of exactly four
  vertices. Their positions are the projection of \<open>v\<close> offset by \<open>(-h,-h)\<close>, \<open>(h,-h)\<close>,
  \<open>(-h,h)\<close>, \<open>(h,h)\<close> in the first two axes, for \<open>h\<close> the uniform \<^verbatim>\<open>halfSize\<close>; their
  texture coordinates are \<open>(0,0)\<close>, \<open>(1,0)\<close>, \<open>(0,1)\<close>, \<open>(1,1)\<close> in that order; all four carry
  the colour \<open>c\<close>. The quad is centred on the projected point: both diagonals add up to
  twice the projection of \<open>v\<close>.
\<close>

theorem geometry_emits_quad:
  "primitives (geometry_main m h v c gs_start) =
     [[\<lparr> position = mat_mul m (vadd4 v (Vec4 (- h) (- h) 0 0)),
          out_fragment = \<lparr> color = c, textureCoordinate = Vec2 0 0 \<rparr> \<rparr>,
       \<lparr> position = mat_mul m (vadd4 v (Vec4 h (- h) 0 0)),
          out_fragment = \<lparr> color = c, textureCoordinate = Vec2 1 0 \<rparr> \<rparr>,
       \<lparr> position = mat_mul m (vadd4 v (Vec4 (- h) h 0 0)),
          out_fragment = \<lparr> color = c, textureCoordinate = Vec2 0 1 \<rparr> \<rparr>,
       \<lparr> position = mat_mul m (vadd4 v (Vec4 h h 0 0)),
          out_fragment = \<lparr> color = c, textureCoordinate = Vec2 1 1 \<rparr> \<rparr>]] \<and>
   strip (geometry_main m h v c gs_start) = [] \<and>
   length (concat (primitives (geometry_main m h v c gs_start))) = 4 \<and>
   map (color \<circ> out_fragment) (concat (primitives (geometry_main m h v c gs_start))) = [c, c, c, c] \<and>
   vadd4 (mat_mul m (vadd4 v (Vec4 (- h) (- h) 0 0))) (mat_mul m (vadd4 v (Vec4 h h 0 0))) =
     mat_mul m (vadd4 v v) \<and>
   vadd4 (mat_mul m (vadd4 v (Vec4 h (- h) 0 0))) (mat_mul m (vadd4 v (Vec4 (- h) h 0 0))) =
     mat_mul m (vadd4 v v)"
proof -
  have e: "vadd4 (vadd4 v (Vec4 (- h) (- h) 0 0)) (vadd4 v (Vec4 h h 0 0)) = vadd4 v v"
          "vadd4 (vadd4 v (Vec4 h (- h) 0 0)) (vadd4 v (Vec4 (- h) h 0 0)) = vadd4 v v"
    by (cases v; simp)+
  show ?thesis
    by (simp add: mat_mul_add e)
       (simp add: geometry_main_def corner_def EmitVertex_def EndPrimitive_def gs_start_def Let_def)
qed

section \<open>The alpha texture\<close>

lemma row_in_range:
  fixes j Nx Ny :: nat
  assumes "j < Ny"
  shows "j * Nx + Nx \<le> Nx * Ny"
proof -
  have "Suc j * Nx \<le> Ny * Nx"
    using assms by (intro mult_le_mono1) simp
  then show ?thesis by (simp add: mult.commute)
qed

lemma alpha_inner_nth:
  assumes "j * Nx + Nx \<le> length a" "i \<le> Nx"
  shows "length (alpha_inner Nx Ny j i a) = length a \<and>
         (\<forall>i'. i \<le> i' \<and> i' < Nx \<longrightarrow> alpha_inner Nx Ny j i a ! (j * Nx + i') = alpha_value Nx Ny i' j) \<and>
         (\<forall>k. k < j * Nx + i \<or> j * Nx + Nx \<le> k \<longrightarrow> alpha_inner Nx Ny j i a ! k = a ! k)"
  using assms
proof (induction Nx Ny j i a rule: alpha_inner.induct)
  case (1 Nx Ny j i a)
  show ?case
  proof (cases "i < Nx")
    case True
    let ?a' = "a[j * Nx + i := alpha_value Nx Ny i j]"
    have unfold: "alpha_inner Nx Ny j i a = alpha_inner Nx Ny j (Suc i) ?a'"
      using True by (subst alpha_inner.simps) simp
    have ih: "length (alpha_inner Nx Ny j (Suc i) ?a') = length ?a' \<and>
         (\<forall>i'. Suc i \<le> i' \<and> i' < Nx \<longrightarrow>
               alpha_inner Nx Ny j (Suc i) ?a' ! (j * Nx + i') = alpha_value Nx Ny i' j) \<and>
         (\<forall>k. k < j * Nx + Suc i \<or> j * Nx + Nx \<le> k \<longrightarrow>
               alpha_inner Nx Ny j (Suc i) ?a' ! k = ?a' ! k)"
      using "1.IH" [OF True] "1.prems" True by simp
    have here: "j * Nx + i < length a"
      using True "1.prems" by simp
    show ?thesis
      unfolding unfold
    proof (intro conjI allI impI)
      show "length (alpha_inner Nx Ny j (Suc i) ?a') = length a"
        using ih by simp
    next
      fix i' assume i': "i \<le> i' \<and> i' < Nx"
      show "alpha_inner Nx Ny j (Suc i) ?a' ! (j * Nx + i') = alpha_value Nx Ny i' j"
      proof (cases "i' = i")
        case True
        then show ?thesis using ih here by simp
      next
        case False
        then show ?thesis using ih i' by simp
      qed
    next
      fix k assume k: "k < j * Nx + i \<or> j * Nx + Nx \<le> k"
      then have "alpha_inner Nx Ny j (Suc i) ?a' ! k = ?a' ! k"
        using ih by auto
      also have "\<dots> = a ! k"
        using k True by (intro nth_list_update_neq) auto
      finally show "alpha_inner Nx Ny j (Suc i) ?a' ! k = a ! k" .
    qed
  next
    case False
    then show ?thesis using "1.prems" by (subst (1 2 3) alpha_inner.simps) simp
  qed
qed

lemma alpha_outer_nth:
  assumes "length a = Nx * Ny" "j \<le> Ny"
  shows "length (alpha_outer Nx Ny j a) = length a \<and>
         (\<forall>j' i'. j \<le> j' \<and> j' < Ny \<and> i' < Nx \<longrightarrow>
                 alpha_outer Nx Ny j a ! (j' * Nx + i') = alpha_value Nx Ny i' j') \<and>
         (\<forall>k. k < j * Nx \<longrightarrow> alpha_outer Nx Ny j a ! k = a ! k)"
  using assms
proof (induction Nx Ny j a rule: alpha_outer.induct)
  case (1 Nx Ny j a)
  show ?case
  proof (cases "j < Ny")
    case True
    let ?a' = "alpha_inner Nx Ny j 0 a"
    have unfold: "alpha_outer Nx Ny j a = alpha_outer Nx Ny (Suc j) ?a'"
      using True by (subst alpha_outer.simps) simp
    have row: "j * Nx + Nx \<le> length a"
      using row_in_range [OF True, of Nx] "1.prems" by simp
    have inner: "length ?a' = length a"
      "\<And>i'. i' < Nx \<Longrightarrow> ?a' ! (j * Nx + i') = alpha_value Nx Ny i' j"
      "\<And>k. k < j * Nx \<Longrightarrow> ?a' ! k = a ! k"
      using alpha_inner_nth [OF row, of 0 Ny] by simp_all
    have ih: "length (alpha_outer Nx Ny (Suc j) ?a') = length ?a' \<and>
         (\<forall>j' i'. Suc j \<le> j' \<and> j' < Ny \<and> i' < Nx \<longrightarrow>
                 alpha_outer Nx Ny (Suc j) ?a' ! (j' * Nx + i') = alpha_value Nx Ny i' j') \<and>
         (\<forall>k. k < Suc j * Nx \<longrightarrow> alpha_outer Nx Ny (Suc j) ?a' ! k = ?a' ! k)"
      using "1.IH" [OF True] "1.prems" True inner(1) by simp
    show ?thesis
      unfolding unfold
    proof (intro conjI allI impI)
      show "length (alpha_outer Nx Ny (Suc j) ?a') = length a"
        using ih inner(1) by simp
    next
      fix j' i' assume h: "j \<le> j' \<and> j' < Ny \<and> i' < Nx"
      show "alpha_outer Nx Ny (Suc j) ?a' ! (j' * Nx + i') = alpha_value Nx Ny i' j'"
      proof (cases "j' = j")
        case True
        have "j * Nx + i' < Suc j * Nx" using h by simp
        then have "alpha_outer Nx Ny (Suc j) ?a' ! (j * Nx + i') = ?a' ! (j * Nx + i')"
          using ih by blast
        then show ?thesis using True h inner(2) by simp
      next
        case False
        then show ?thesis using ih h by simp
      qed
    next
      fix k assume k: "k < j * Nx"
      then have "k < Suc j * Nx" by simp
      then have "alpha_outer Nx Ny (Suc j) ?a' ! k = ?a' ! k"
        using ih by blast
      then show "alpha_outer Nx Ny (Suc j) ?a' ! k = a ! k"
        using inner(3) [OF k] by simp
    qed
  next
    case False
    then show ?thesis using "1.prems" by (subst (1 2 3) alpha_outer.simps) simp
  qed
qed

lemma build_alpha_nth:
  shows "length (build_alpha Nx Ny) = Nx * Ny"
    and "i < Nx \<Longrightarrow> j < Ny \<Longrightarrow> build_alpha Nx Ny ! (j * Nx + i) = alpha_value Nx Ny i j"
  using alpha_outer_nth [of "replicate (Nx * Ny) 0" Nx Ny 0]
  by (simp_all add: build_alpha_def)

lemma onCreate_texture:
  shows "length (texture (onCreate rnd s)) = 256 * 256"
    and "i < 256 \<Longrightarrow> j < 256 \<Longrightarrow>
           texture (onCreate rnd s) ! (j * 256 + i) = alpha_value 256 256 i j"
  by (simp_all add: onCreate_def Let_def build_alpha_nth)


subsection \<open>The values of the samples\<close>

lemma coord_256: "coord 256 i = real_of_int (2 * int i - 255) / 255"
  by (simp add: coord_def field_simps)

lemma trunc_floor: "0 \<le> r \<Longrightarrow> trunc r = \<lfloor>r\<rfloor>"
  by (simp add: trunc_def)

lemma alpha_value_range: "0 \<le> alpha_value Nx Ny i j \<and> alpha_value Nx Ny i j \<le> 32767"
proof -
  define m where "m = exp (- 13 * (coord Nx i * coord Nx i + coord Ny j * coord Ny j)) * (2 ^ 15 - 1)"
  have "0 \<le> coord Nx i * coord Nx i + coord Ny j * coord Ny j" by simp
  then have "exp (- 13 * (coord Nx i * coord Nx i + coord Ny j * coord Ny j)) \<le> 1" by simp
  then have hi: "m \<le> 32767" by (simp add: m_def)
  have lo: "0 \<le> m" by (simp add: m_def)
  have "\<lfloor>m\<rfloor> \<le> \<lfloor>32767 :: real\<rfloor>" using hi by (rule floor_mono)
  moreover have "0 \<le> \<lfloor>m\<rfloor>" using lo by (simp only: zero_le_floor)
  moreover have "alpha_value Nx Ny i j = \<lfloor>m\<rfloor>"
    using lo unfolding alpha_value_def Let_def m_def [symmetric] by (rule trunc_floor)
  ultimately show ?thesis by simp
qed

lemma exp_26_bounds:
  "32753 \<le> exp (- (26 / 65025) :: real) * 32767" "exp (- (26 / 65025) :: real) * 32767 < 32754"
proof -
  have lo: "1 - 26 / 65025 \<le> exp (- (26 / 65025) :: real)"
    using exp_ge_add_one_self [of "- (26 / 65025) :: real"] by simp
  have "(32753 :: real) \<le> (1 - 26 / 65025) * 32767" by simp
  also have "\<dots> \<le> exp (- (26 / 65025) :: real) * 32767"
    using lo by simp
  finally show "32753 \<le> exp (- (26 / 65025) :: real) * 32767" .
  have "1 + 26 / 65025 \<le> exp (26 / 65025 :: real)"
    using exp_ge_add_one_self [of "26 / 65025 :: real"] by simp
  then have "inverse (exp (26 / 65025 :: real)) \<le> inverse (1 + 26 / 65025)"
    by (intro le_imp_inverse_le) simp_all
  then have "exp (- (26 / 65025) :: real) \<le> inverse (1 + 26 / 65025)"
    by (simp add: exp_minus)
  then have "exp (- (26 / 65025) :: real) * 32767 \<le> inverse (1 + 26 / 65025) * 32767"
    by simp
  also have "\<dots> < (32754 :: real)" by simp
  finally show "exp (- (26 / 65025) :: real) * 32767 < 32754" .
qed

lemma coord_sq_ge:
  "1 / 65025 \<le> coord 256 i * coord 256 i"
proof -
  let ?z = "2 * int i - 255"
  have "?z \<noteq> 0" by presburger
  then have "1 \<le> ?z * ?z"
    by (metis mult_eq_0_iff not_less zero_le_square zless_imp_add1_zle add_0 less_le)
  then have "(1 :: real) \<le> real_of_int (?z * ?z)"
    by (simp only: of_int_1_le_iff)
  then have "1 / 65025 \<le> real_of_int (?z * ?z) / 65025"
    by simp
  also have "\<dots> = coord 256 i * coord 256 i"
    by (simp add: coord_256)
  finally show ?thesis .
qed

lemma alpha_value_le:
  "alpha_value 256 256 i j \<le> 32753"
proof -
  let ?s = "coord 256 i * coord 256 i + coord 256 j * coord 256 j"
  have "2 / 65025 \<le> ?s"
    using coord_sq_ge [of i] coord_sq_ge [of j] by simp
  then have "- 13 * ?s \<le> - (26 / 65025)" by simp
  then have "exp (- 13 * ?s) \<le> exp (- (26 / 65025))"
    by (simp only: exp_le_cancel_iff)
  then have "exp (- 13 * ?s) * 32767 \<le> exp (- (26 / 65025)) * 32767" by simp
  then have "exp (- 13 * ?s) * 32767 < 32754"
    using exp_26_bounds(2) by linarith
  then have "\<lfloor>exp (- 13 * ?s) * 32767\<rfloor> < 32754"
    by (simp add: floor_less_iff)
  moreover have "0 \<le> exp (- 13 * ?s) * 32767" by simp
  ultimately show ?thesis
    by (simp add: alpha_value_def Let_def trunc_floor)
qed

lemma coord_centre: "coord 256 127 = - (1 / 255)" "coord 256 128 = 1 / 255"
  by (simp_all add: coord_def)

lemma coord_edge: "coord 256 0 = - 1" "coord 256 255 = 1"
  by (simp_all add: coord_def)

lemma floor_centre: "\<lfloor>exp (- (26 / 65025) :: real) * 32767\<rfloor> = 32753"
  using exp_26_bounds by (simp add: floor_eq_iff)

lemma alpha_value_centre:
  "alpha_value 256 256 127 127 = 32753" "alpha_value 256 256 128 127 = 32753"
  "alpha_value 256 256 127 128 = 32753" "alpha_value 256 256 128 128 = 32753"
  using floor_centre by (simp_all add: alpha_value_def Let_def coord_centre trunc_floor)

lemma exp_26_large: "32767 < exp (26 :: real)"
proof -
  have "(2 :: real) \<le> exp 1"
    using exp_ge_add_one_self [of "1 :: real"] by simp
  then have "(2 :: real) ^ 26 \<le> exp 1 ^ 26"
    by (intro power_mono) simp_all
  also have "\<dots> = exp (26 :: real)"
    using exp_of_nat_mult [of 26 "1 :: real"] by simp
  finally show ?thesis by simp
qed

lemma floor_corner: "\<lfloor>exp (- 26 :: real) * 32767\<rfloor> = 0"
proof -
  have "exp (- 26 :: real) * 32767 = 32767 / exp 26"
    by (simp add: exp_minus field_simps)
  moreover have "32767 / exp (26 :: real) < 1"
    using exp_26_large by simp
  moreover have "0 \<le> 32767 / exp (26 :: real)" by simp
  ultimately show ?thesis by (simp add: floor_eq_iff)
qed

lemma alpha_value_corner:
  "alpha_value 256 256 0 0 = 0" "alpha_value 256 256 255 0 = 0"
  "alpha_value 256 256 0 255 = 0" "alpha_value 256 256 255 255 = 0"
  using floor_corner by (simp_all add: alpha_value_def Let_def coord_edge trunc_floor)

lemma extreme_margins:
  "32753.89 \<le> exp (- (26 / 65025) :: real) * 32767"
  "exp (- (26 / 65025) :: real) * 32767 \<le> 32753.91"
  "exp (- 26 :: real) * 32767 \<le> 0.001"
proof -
  have lo: "1 - 26 / 65025 \<le> exp (- (26 / 65025) :: real)"
    using exp_ge_add_one_self [of "- (26 / 65025) :: real"] by simp
  have "(32753.89 :: real) \<le> (1 - 26 / 65025) * 32767" by simp
  also have "\<dots> \<le> exp (- (26 / 65025) :: real) * 32767"
    using lo by simp
  finally show "32753.89 \<le> exp (- (26 / 65025) :: real) * 32767" .
  have "1 + 26 / 65025 \<le> exp (26 / 65025 :: real)"
    using exp_ge_add_one_self [of "26 / 65025 :: real"] by simp
  then have "inverse (exp (26 / 65025 :: real)) \<le> inverse (1 + 26 / 65025)"
    by (intro le_imp_inverse_le) simp_all
  then have "exp (- (26 / 65025) :: real) \<le> inverse (1 + 26 / 65025)"
    by (simp add: exp_minus)
  then have "exp (- (26 / 65025) :: real) * 32767 \<le> inverse (1 + 26 / 65025) * 32767"
    by simp
  also have "\<dots> \<le> (32753.91 :: real)" by simp
  finally show "exp (- (26 / 65025) :: real) * 32767 \<le> 32753.91" .
  have "(2 :: real) \<le> exp 1"
    using exp_ge_add_one_self [of "1 :: real"] by simp
  then have "(2 :: real) ^ 26 \<le> exp 1 ^ 26"
    by (intro power_mono) simp_all
  also have "\<dots> = exp (26 :: real)"
    using exp_of_nat_mult [of 26 "1 :: real"] by simp
  finally have big: "(67108864 :: real) \<le> exp 26" by simp
  have "exp (- 26 :: real) * 32767 = 32767 / exp 26"
    by (simp add: exp_minus field_simps)
  also have "\<dots> \<le> 32767 / 67108864"
    using big by (intro divide_left_mono) simp_all
  also have "\<dots> \<le> (0.001 :: real)" by simp
  finally show "exp (- 26 :: real) * 32767 \<le> 0.001" .
qed


text \<open>
  Claim C5, as amended. The texture built by \<^verbatim>\<open>onCreate\<close> has \<open>256 * 256\<close> samples,
  all between \<open>0\<close> and \<open>32753\<close>. No sample sits at the exact centre of the grid, since
  the coordinates of a row of \<open>256\<close> samples are the odd multiples of \<open>1/255\<close>. The four
  samples next to the centre (rows and columns \<open>127\<close> and \<open>128\<close>) hold the largest value
  of the grid, \<open>32753\<close>, which is below \<open>2\<^sup>1\<^sup>5 - 1 = 32767\<close>; the four corner samples are
  \<open>0\<close>.
\<close>

theorem alpha_mask_extremes:
  "length (texture (onCreate rnd s)) = 256 * 256 \<and>
   (\<forall>i<256. coord 256 i \<noteq> 0) \<and>
   (\<forall>i<256. \<forall>j<256. 0 \<le> texture (onCreate rnd s) ! (j * 256 + i) \<and>
                       texture (onCreate rnd s) ! (j * 256 + i) \<le> 32753) \<and>
   texture (onCreate rnd s) ! (127 * 256 + 127) = 32753 \<and>
   texture (onCreate rnd s) ! (127 * 256 + 128) = 32753 \<and>
   texture (onCreate rnd s) ! (128 * 256 + 127) = 32753 \<and>
   texture (onCreate rnd s) ! (128 * 256 + 128) = 32753 \<and>
   texture (onCreate rnd s) ! (0 * 256 + 0) = 0 \<and>
   texture (onCreate rnd s) ! (0 * 256 + 255) = 0 \<and>
   texture (onCreate rnd s) ! (255 * 256 + 0) = 0 \<and>
   texture (onCreate rnd s) ! (255 * 256 + 255) = 0"
proof -
  have "\<forall>i<256. \<forall>j<256. 0 \<le> texture (onCreate rnd s) ! (j * 256 + i) \<and>
                       texture (onCreate rnd s) ! (j * 256 + i) \<le> 32753"
    using alpha_value_range alpha_value_le by (simp add: onCreate_texture(2))
  moreover have "texture (onCreate rnd s) ! (127 * 256 + 127) = 32753"
                "texture (onCreate rnd s) ! (127 * 256 + 128) = 32753"
                "texture (onCreate rnd s) ! (128 * 256 + 127) = 32753"
                "texture (onCreate rnd s) ! (128 * 256 + 128) = 32753"
    by (simp_all only: onCreate_texture(2) alpha_value_centre)
  moreover have "texture (onCreate rnd s) ! (0 * 256 + 0) = 0"
                "texture (onCreate rnd s) ! (0 * 256 + 255) = 0"
                "texture (onCreate rnd s) ! (255 * 256 + 0) = 0"
                "texture (onCreate rnd s) ! (255 * 256 + 255) = 0"
    by (simp_all only: onCreate_texture(2) alpha_value_corner)
  moreover have "\<forall>i<256. coord 256 i \<noteq> 0"
  proof (intro allI impI)
    fix i :: nat
    show "coord 256 i \<noteq> 0" using coord_sq_ge [of i] by auto
  qed
  ultimately show ?thesis
    using onCreate_texture(1) [of rnd s] by blast
qed

theorem alpha_mask_extremes_witness:
  "(3 :: nat) < 256 \<and> (5 :: nat) < 256 \<and>
   coord 256 3 \<noteq> 0 \<and>
   texture (onCreate (\<lambda>k. 0) app_init) ! (5 * 256 + 3) \<le> 32753 \<and>
   texture (onCreate (\<lambda>k. 0) app_init) ! (128 * 256 + 128) = 32753 \<and>
   texture (onCreate (\<lambda>k. 0) app_init) ! (255 * 256 + 255) = 0"
proof -
  note t = alpha_mask_extremes [of "\<lambda>k. 0" app_init]
  have a: "i < 256 \<Longrightarrow> j < 256 \<Longrightarrow>
           texture (onCreate (\<lambda>k. 0) app_init) ! (j * 256 + i) \<le> 32753" for i j
    using t by blast
  have "texture (onCreate (\<lambda>k. 0) app_init) ! (5 * 256 + 3) \<le> 32753"
    by (rule a) simp_all
  moreover have "coord 256 3 \<noteq> 0"
    using t by simp
  ultimately show ?thesis using t by simp
qed

text \<open>
  Claim C5 as stated fails: none of the four samples around the centre of the
  \<open>256 by 256\<close> grid equals \<open>2\<^sup>1\<^sup>5 - 1\<close>.
\<close>

theorem centre_below_maximum_counterexample:
  "texture (onCreate (\<lambda>k. 0) app_init) ! (127 * 256 + 127) \<noteq> 2 ^ 15 - 1 \<and>
   texture (onCreate (\<lambda>k. 0) app_init) ! (127 * 256 + 128) \<noteq> 2 ^ 15 - 1 \<and>
   texture (onCreate (\<lambda>k. 0) app_init) ! (128 * 256 + 127) \<noteq> 2 ^ 15 - 1 \<and>
   texture (onCreate (\<lambda>k. 0) app_init) ! (128 * 256 + 128) \<noteq> 2 ^ 15 - 1"
proof -
  have "texture (onCreate (\<lambda>k. 0) app_init) ! (127 * 256 + 127) = 32753"
       "texture (onCreate (\<lambda>k. 0) app_init) ! (127 * 256 + 128) = 32753"
       "texture (onCreate (\<lambda>k. 0) app_init) ! (128 * 256 + 127) = 32753"
       "texture (onCreate (\<lambda>k. 0) app_init) ! (128 * 256 + 128) = 32753"
    by (simp_all only: onCreate_texture(2) alpha_value_centre)
  then show ?thesis by simp
qed

end
